theory Spec2Isabelle
  imports Complex_Main "HOL-Library.Log_Nat"
begin

section \<open>Numbers, errors and dictionaries\<close>

text \<open>
  The module \<open>qmpy_rester/phase_diagram/phase.py\<close> computes with Python numbers
  (\<open>int\<close> and \<open>float\<close>). Every finite value of either type is a rational number, so
  amounts and energies are modelled as \<^typ>\<open>rat\<close> and \<open>+\<close>, \<open>-\<close>, \<open>*\<close>, \<open>/\<close> as the exact
  operations, and the literal \<open>1e-6\<close> is the rational \<open>1 / 1000000\<close>. Comparisons and
  tests against zero of values that are read from the input are the same in both
  readings. Python 3 is assumed: \<open>/\<close> is true division and raises
  \<open>ZeroDivisionError\<close> on a zero divisor. The rounding of binary floating point matters
  where a tolerance on a computed energy is stated; for that the \<open>energy\<close> setter is
  modelled a second time, on Python numbers with the rounding of \<open>float\<close> (section
  "The energy setter on Python numbers").
\<close>

datatype error =
  PhaseError | ZeroDivisionError | KeyError | TypeError | ParseError | OverflowError

definition py_div :: "rat \<Rightarrow> rat \<Rightarrow> error + rat" where
  "py_div a b = (if b = 0 then Inl ZeroDivisionError else Inr (a / b))"

text \<open>
  A Python dictionary keeps its keys in insertion order and the loops of \<open>amt\<close> and
  \<open>fraction\<close> run in that order, so a composition is an association list whose keys are
  distinct. Assigning to a key that is present keeps its position; a new key goes to
  the end.
\<close>

type_synonym dict = "(string \<times> rat) list"

definition dict_keys :: "dict \<Rightarrow> string list" where
  "dict_keys d = map fst d"

definition sum_values :: "dict \<Rightarrow> rat" where
  "sum_values d = sum_list (map snd d)"

fun setitem :: "dict \<Rightarrow> string \<Rightarrow> rat \<Rightarrow> dict" where
  "setitem [] k v = [(k, v)]"
| "setitem ((k', v') # d) k v = (if k' = k then (k, v) # d else (k', v') # setitem d k v)"

text \<open>\<open>d[k]\<close> on a plain \<open>dict\<close>: a missing key raises \<open>KeyError\<close>.\<close>

definition getitem :: "dict \<Rightarrow> string \<Rightarrow> error + rat" where
  "getitem d k = (case map_of d k of None \<Rightarrow> Inl KeyError | Some v \<Rightarrow> Inr v)"

text \<open>
  \<open>d[k]\<close> on a \<open>defaultdict(float)\<close>: a missing key is first inserted with the value
  \<open>0.0\<close>. The result is the value read and the dictionary after the read.
\<close>

definition dd_getitem :: "dict \<Rightarrow> string \<Rightarrow> rat \<times> dict" where
  "dd_getitem d k = (case map_of d k of None \<Rightarrow> (0, d @ [(k, 0)]) | Some v \<Rightarrow> (v, d))"

section \<open>The composition helpers of \<open>qmpy_rester.utils\<close>\<close>

text \<open>
  \<open>phase.py\<close> imports \<open>parse_comp\<close>, \<open>unit_comp\<close>, \<open>reduce_comp\<close> and \<open>format_comp\<close>
  from \<open>..utils\<close>, which is not part of the sources at hand. The parser and the
  formatter are parameters of the functions that call them, together with two built-ins
  of Python that have no counterpart in HOL: the \<open>'%.3g'\<close> formatting of a number and
  \<open>hash\<close> on a tuple of a string and a number. The two normalisers are modelled from the
  specification, since the energy setters divide by sums over their results.
\<close>

record env =
  parse_comp :: "string \<Rightarrow> error + dict"
  format_comp :: "dict \<Rightarrow> string"
  format_g :: "rat \<Rightarrow> string"
  hash_tuple :: "string \<times> rat \<Rightarrow> int"

text \<open>
  Modelled from the spec: \<open>unit_comp\<close> of \<open>qmpy_rester.utils\<close> is missing. The spec
  describes it as "composition normalizer: mapping \<open>\<rightarrow>\<close> mapping rescaled to sum to 1 (unit
  form)". Every amount is divided by the sum of the amounts; dividing an amount by a zero
  sum is the arithmetic error of Python's division.
\<close>

definition unit_comp :: "dict \<Rightarrow> error + dict" where
  "unit_comp c =
     (let tot = sum_values c
      in if c \<noteq> [] \<and> tot = 0 then Inl ZeroDivisionError
         else Inr (map (\<lambda>(k, v). (k, v / tot)) c))"

text \<open>
  Modelled from the spec: the greatest common divisor used by \<open>reduce_comp\<close> is missing.
  The spec speaks of "the greatest common divisor of its amounts (smallest integer-ratio
  formula)". For rational amounts this is the largest rational of which every amount is an
  integer multiple: for \<open>a = p / q\<close> and \<open>b = r / s\<close> in lowest terms it is
  \<open>gcd (p * s) (r * q) / (q * s)\<close>; on integers it is the usual \<open>gcd\<close>.
\<close>

definition gcd_rat :: "rat \<Rightarrow> rat \<Rightarrow> rat" where
  "gcd_rat a b =
     (case quotient_of a of (p, q) \<Rightarrow>
      case quotient_of b of (r, s) \<Rightarrow>
        of_int (gcd (p * s) (r * q)) / of_int (q * s))"

definition gcd_amounts :: "rat list \<Rightarrow> rat" where
  "gcd_amounts vs = fold gcd_rat vs 0"

text \<open>
  Modelled from the spec: \<open>reduce_comp\<close> of \<open>qmpy_rester.utils\<close> is missing. The spec
  describes it as "composition reducer: mapping \<open>\<rightarrow>\<close> mapping divided by the GCD of its
  values (nominal/reduced form)". Dividing an amount by a zero divisor (all amounts zero)
  is the arithmetic error of Python's division.
\<close>

definition reduce_comp :: "dict \<Rightarrow> error + dict" where
  "reduce_comp c =
     (let g = gcd_amounts (map snd c)
      in if c \<noteq> [] \<and> g = 0 then Inl ZeroDivisionError
         else Inr (map (\<lambda>(k, v). (k, v / g)) c))"

section \<open>Phase\<close>

text \<open>
  A \<open>Phase\<close> object holds the attributes that \<open>__init__\<close>, the \<open>comp\<close> setter and the
  energy setters assign: \<open>description\<close>, \<open>_comp\<close>, \<open>_unit_comp\<close>, \<open>_nom_comp\<close>,
  \<open>stability\<close>, \<open>custom_name\<close>, \<open>_energy\<close>, \<open>_total_energy\<close>, \<open>_energy_pfu\<close>,
  \<open>phase_dict\<close> (a mapping from constituent phases to amounts, in insertion order) and
  \<open>index\<close> (assigned by \<open>PhaseData.add_phase\<close>). The class attributes \<open>id\<close>, \<open>use\<close> and
  \<open>show_label\<close> are constants that no method reads or assigns. The selectors of
  \<open>_comp\<close>, \<open>_unit_comp\<close> and \<open>_nom_comp\<close> are \<open>comp_attr\<close>, \<open>unit_comp_attr\<close> and
  \<open>nom_comp_attr\<close>.
\<close>

datatype Phase = Phase
  (description: string)
  (comp_attr: dict)
  (unit_comp_attr: dict)
  (nom_comp_attr: dict)
  (stability: "rat option")
  (custom_name: "string option")
  (energy: rat)
  (total_energy: rat)
  (energy_pfu: rat)
  (phase_dict: "(Phase \<times> rat) list")
  (index: "nat option")

text \<open>
  Assignment to one attribute: \<open>upd_f x p\<close> is \<open>p\<close> after \<open>p.f = x\<close>.
\<close>

definition upd_description :: "string \<Rightarrow> Phase \<Rightarrow> Phase" where
  "upd_description x p =
     Phase x (comp_attr p) (unit_comp_attr p) (nom_comp_attr p)
       (stability p) (custom_name p) (energy p) (total_energy p)
       (energy_pfu p) (phase_dict p) (index p)"

definition upd_comp_attr :: "dict \<Rightarrow> Phase \<Rightarrow> Phase" where
  "upd_comp_attr x p =
     Phase (description p) x (unit_comp_attr p) (nom_comp_attr p)
       (stability p) (custom_name p) (energy p) (total_energy p)
       (energy_pfu p) (phase_dict p) (index p)"

definition upd_unit_comp_attr :: "dict \<Rightarrow> Phase \<Rightarrow> Phase" where
  "upd_unit_comp_attr x p =
     Phase (description p) (comp_attr p) x (nom_comp_attr p)
       (stability p) (custom_name p) (energy p) (total_energy p)
       (energy_pfu p) (phase_dict p) (index p)"

definition upd_nom_comp_attr :: "dict \<Rightarrow> Phase \<Rightarrow> Phase" where
  "upd_nom_comp_attr x p =
     Phase (description p) (comp_attr p) (unit_comp_attr p) x
       (stability p) (custom_name p) (energy p) (total_energy p)
       (energy_pfu p) (phase_dict p) (index p)"

definition upd_stability :: "rat option \<Rightarrow> Phase \<Rightarrow> Phase" where
  "upd_stability x p =
     Phase (description p) (comp_attr p) (unit_comp_attr p) (nom_comp_attr p)
       x (custom_name p) (energy p) (total_energy p)
       (energy_pfu p) (phase_dict p) (index p)"

definition upd_custom_name :: "string option \<Rightarrow> Phase \<Rightarrow> Phase" where
  "upd_custom_name x p =
     Phase (description p) (comp_attr p) (unit_comp_attr p) (nom_comp_attr p)
       (stability p) x (energy p) (total_energy p)
       (energy_pfu p) (phase_dict p) (index p)"

definition upd_energy :: "rat \<Rightarrow> Phase \<Rightarrow> Phase" where
  "upd_energy x p =
     Phase (description p) (comp_attr p) (unit_comp_attr p) (nom_comp_attr p)
       (stability p) (custom_name p) x (total_energy p)
       (energy_pfu p) (phase_dict p) (index p)"

definition upd_total_energy :: "rat \<Rightarrow> Phase \<Rightarrow> Phase" where
  "upd_total_energy x p =
     Phase (description p) (comp_attr p) (unit_comp_attr p) (nom_comp_attr p)
       (stability p) (custom_name p) (energy p) x
       (energy_pfu p) (phase_dict p) (index p)"

definition upd_energy_pfu :: "rat \<Rightarrow> Phase \<Rightarrow> Phase" where
  "upd_energy_pfu x p =
     Phase (description p) (comp_attr p) (unit_comp_attr p) (nom_comp_attr p)
       (stability p) (custom_name p) (energy p) (total_energy p)
       x (phase_dict p) (index p)"

definition upd_phase_dict :: "(Phase \<times> rat) list \<Rightarrow> Phase \<Rightarrow> Phase" where
  "upd_phase_dict x p =
     Phase (description p) (comp_attr p) (unit_comp_attr p) (nom_comp_attr p)
       (stability p) (custom_name p) (energy p) (total_energy p)
       (energy_pfu p) x (index p)"

definition upd_index :: "nat option \<Rightarrow> Phase \<Rightarrow> Phase" where
  "upd_index x p =
     Phase (description p) (comp_attr p) (unit_comp_attr p) (nom_comp_attr p)
       (stability p) (custom_name p) (energy p) (total_energy p)
       (energy_pfu p) (phase_dict p) x"

text \<open>
  A new object before \<open>__init__\<close> assigns anything: the class defaults
  \<open>custom_name = None\<close> and \<open>phase_dict = {}\<close>, no \<open>index\<close>. The other attributes do
  not exist yet in Python; they hold placeholders here, and a successful \<open>__init__\<close>
  overwrites each of them.
\<close>

definition new_object :: Phase where
  "new_object = Phase [] [] [] [] None None 0 0 0 [] None"

text \<open>The \<open>comp\<close> setter (lines 240-244).\<close>

definition set_comp :: "Phase \<Rightarrow> dict \<Rightarrow> error + Phase" where
  "set_comp p composition =
     (case unit_comp composition of
        Inl err \<Rightarrow> Inl err
      | Inr u \<Rightarrow>
          (case reduce_comp composition of
             Inl err \<Rightarrow> Inl err
           | Inr r \<Rightarrow>
               Inr (upd_nom_comp_attr r (upd_unit_comp_attr u (upd_comp_attr composition p)))))"

text \<open>\<open>natoms\<close> (lines 172-174).\<close>

definition natoms :: "Phase \<Rightarrow> rat" where
  "natoms p = sum_values (nom_comp_attr p)"

text \<open>
  The three energy setters (lines 267-271, 280-284, 293-295). An exception raised by
  a division leaves the object with the assignments before it done; the model returns
  the error only.
\<close>

definition set_energy :: "Phase \<Rightarrow> rat \<Rightarrow> error + Phase" where
  "set_energy p en =
     (let p1 = upd_energy en p;
          p2 = upd_total_energy (en * sum_values (comp_attr p1)) p1
      in case py_div en (sum_values (nom_comp_attr p2)) of
           Inl err \<Rightarrow> Inl err
         | Inr pfu \<Rightarrow> Inr (upd_energy_pfu pfu p2))"

definition set_total_energy :: "Phase \<Rightarrow> rat \<Rightarrow> error + Phase" where
  "set_total_energy p en =
     (let p1 = upd_total_energy en p
      in case py_div en (sum_values (comp_attr p1)) of
           Inl err \<Rightarrow> Inl err
         | Inr per_atom \<Rightarrow>
             (let p2 = upd_energy per_atom p1
              in case py_div en (sum_values (nom_comp_attr p2)) of
                   Inl err \<Rightarrow> Inl err
                 | Inr pfu \<Rightarrow> Inr (upd_energy_pfu pfu p2)))"

definition set_energy_pfu :: "Phase \<Rightarrow> rat \<Rightarrow> Phase" where
  "set_energy_pfu p en = upd_energy_pfu en p"

text \<open>
  \<open>__init__\<close> (lines 123-146). The composition is \<open>None\<close>, a string for \<open>parse_comp\<close>
  or a mapping; \<open>name\<close> is stored as \<open>custom_name\<close> when it is
  not empty; the parameter \<open>total\<close> (here \<open>tot_flag\<close>) is not used by the source.
\<close>

datatype composition = CompStr string | CompMap dict

definition Phase_init ::
  "env \<Rightarrow> composition option \<Rightarrow> rat option \<Rightarrow> string \<Rightarrow> bool \<Rightarrow>
   rat option \<Rightarrow> bool \<Rightarrow> string \<Rightarrow> error + Phase" where
  "Phase_init env composition en descr per_atom stab tot_flag nm =
     (case (composition, en) of
        (None, _) \<Rightarrow> Inl PhaseError
      | (_, None) \<Rightarrow> Inl PhaseError
      | (Some cmp, Some e) \<Rightarrow>
          (case (case cmp of CompStr s \<Rightarrow> parse_comp env s | CompMap m \<Rightarrow> Inr m) of
             Inl err \<Rightarrow> Inl err
           | Inr m \<Rightarrow>
               (case set_comp (upd_description descr new_object) m of
                  Inl err \<Rightarrow> Inl err
                | Inr p1 \<Rightarrow>
                    (let p2 = upd_stability stab p1;
                         p3 = (if nm \<noteq> [] then upd_custom_name (Some nm) p2 else p2)
                     in if \<not> per_atom then set_total_energy p3 e else set_energy p3 e))))"

text \<open>
  The \<open>name\<close> property (lines 208-216): the custom name when it is set and not empty;
  for a composite phase the terms \<open>'%.3g %s' % (v / p.natoms, p.name)\<close> of its
  constituents joined by \<open>' + '\<close>; otherwise the formatted nominal composition.
\<close>

fun map_err :: "('a \<Rightarrow> error + 'b) \<Rightarrow> 'a list \<Rightarrow> error + 'b list" where
  "map_err f [] = Inr []"
| "map_err f (x # xs) =
     (case f x of
        Inl err \<Rightarrow> Inl err
      | Inr y \<Rightarrow> (case map_err f xs of Inl err \<Rightarrow> Inl err | Inr ys \<Rightarrow> Inr (y # ys)))"

lemma map_err_cong [fundef_cong]:
  "xs = ys \<Longrightarrow> (\<And>x. x \<in> set ys \<Longrightarrow> f x = g x) \<Longrightarrow> map_err f xs = map_err g ys"
proof -
  assume same: "xs = ys" and fg: "\<And>x. x \<in> set ys \<Longrightarrow> f x = g x"
  from fg have "map_err f ys = map_err g ys"
    by (induction ys) (simp_all split: sum.splits)
  with same show ?thesis by simp
qed

fun join :: "string \<Rightarrow> string list \<Rightarrow> string" where
  "join sep [] = []"
| "join sep [x] = x"
| "join sep (x # y # ys) = x @ sep @ join sep (y # ys)"

fun name :: "env \<Rightarrow> Phase \<Rightarrow> error + string" where
  "name env (Phase d c u r s cn e te ep pd i) =
     (if cn \<noteq> None \<and> cn \<noteq> Some [] then Inr (the cn)
      else if pd \<noteq> [] then
        (case map_err
                (\<lambda>qv. case py_div (snd qv) (natoms (fst qv)) of
                         Inl err \<Rightarrow> Inl err
                       | Inr v \<Rightarrow>
                           (case name env (fst qv) of
                              Inl err \<Rightarrow> Inl err
                            | Inr nm \<Rightarrow> Inr (format_g env v @ '' '' @ nm)))
                pd of
           Inl err \<Rightarrow> Inl err
         | Inr terms \<Rightarrow> Inr (join '' + '' terms))
      else Inr (format_comp env r))"

text \<open>\<open>__hash__\<close> (lines 187-188).\<close>

definition Phase_hash :: "env \<Rightarrow> Phase \<Rightarrow> error + int" where
  "Phase_hash env p =
     (case name env p of Inl err \<Rightarrow> Inl err | Inr nm \<Rightarrow> Inr (hash_tuple env (nm, energy p)))"

text \<open>
  \<open>__eq__\<close> (lines 190-202). \<open>set(self.comp)\<close> is the set of the keys of the
  composition, whatever their amounts. The unit compositions are read with \<open>[key]\<close>.
\<close>

fun eq_loop :: "string list \<Rightarrow> Phase \<Rightarrow> Phase \<Rightarrow> error + bool" where
  "eq_loop [] self other = Inr True"
| "eq_loop (key # ks) self other =
     (case getitem (unit_comp_attr self) key of
        Inl err \<Rightarrow> Inl err
      | Inr a \<Rightarrow>
          (case getitem (unit_comp_attr other) key of
             Inl err \<Rightarrow> Inl err
           | Inr b \<Rightarrow>
               if \<bar>a - b\<bar> > 1 / 1000000 then Inr False else eq_loop ks self other))"

definition Phase_eq :: "Phase \<Rightarrow> Phase \<Rightarrow> error + bool" where
  "Phase_eq self other =
     (if set (dict_keys (comp_attr self)) \<noteq> set (dict_keys (comp_attr other)) then Inr False
      else if \<bar>energy self - energy other\<bar> > 1 / 1000000 then Inr False
      else eq_loop (dict_keys (comp_attr self)) self other)"

text \<open>
  \<open>from_phases\<close> (lines 148-170). Under Python 3 \<open>phase_dict.keys()\<close> is a view,
  which has no \<open>[0]\<close>: the branch for a single entry raises \<open>TypeError\<close>. \<open>sorted\<close>
  evaluates the name of every key; its result \<open>pkeys\<close> is not used. \<open>comp[e] += x\<close>
  on a \<open>defaultdict(float)\<close> reads with the default and stores the sum.
\<close>

definition dd_iadd :: "dict \<Rightarrow> string \<Rightarrow> rat \<Rightarrow> dict" where
  "dd_iadd d k x = (case dd_getitem d k of (v, d1) \<Rightarrow> setitem d1 k (v + x))"

definition from_phases :: "env \<Rightarrow> (Phase \<times> rat) list \<Rightarrow> error + Phase" where
  "from_phases env pdict =
     (if length pdict = 1 then Inl TypeError
      else
        (case map_err (\<lambda>pa. name env (fst pa)) pdict of
           Inl err \<Rightarrow> Inl err
         | Inr pkeys \<Rightarrow>
             (let en = sum_list (map (\<lambda>(p, amt). amt * energy p) pdict);
                  cmp = fold (\<lambda>(p, factor) acc.
                               fold (\<lambda>(e, amt) acc'. dd_iadd acc' e (amt * factor))
                                 (unit_comp_attr p) acc)
                          pdict []
              in case Phase_init env (Some (CompMap cmp)) (Some en) [] False None False [] of
                   Inl err \<Rightarrow> Inl err
                 | Inr phase \<Rightarrow> Inr (upd_phase_dict pdict phase))))"

section \<open>PhaseData\<close>

text \<open>
  A Python \<open>set\<close> of phases keeps, for each member, the hash computed when the member
  was added. A lookup computes the hash of the probe and compares it with the members of
  the same hash by \<open>member is probe or member == probe\<close>. The model keeps the members
  with their hashes in the order of insertion; object identity is read as equality of all
  attributes.
\<close>

type_synonym pyset = "(int \<times> Phase) list"

fun probe :: "pyset \<Rightarrow> int \<Rightarrow> Phase \<Rightarrow> error + bool" where
  "probe [] h x = Inr False"
| "probe ((h', y) # s) h x =
     (if h' = h then
        (if y = x then Inr True
         else case Phase_eq y x of
                Inl err \<Rightarrow> Inl err
              | Inr b \<Rightarrow> if b then Inr True else probe s h x)
      else probe s h x)"

text \<open>\<open>x in s\<close> and \<open>s.add(x)\<close>.\<close>

definition set_contains :: "env \<Rightarrow> pyset \<Rightarrow> Phase \<Rightarrow> error + bool" where
  "set_contains env s x =
     (case Phase_hash env x of Inl err \<Rightarrow> Inl err | Inr h \<Rightarrow> probe s h x)"

definition set_add :: "env \<Rightarrow> pyset \<Rightarrow> Phase \<Rightarrow> error + pyset" where
  "set_add env s x =
     (case Phase_hash env x of
        Inl err \<Rightarrow> Inl err
      | Inr h \<Rightarrow>
          (case probe s h x of
             Inl err \<Rightarrow> Inl err
           | Inr found \<Rightarrow> Inr (if found then s else s @ [(h, x)])))"

text \<open>
  The container: \<open>_phases\<close>, the two \<open>defaultdict(set)\<close> indexes (a key that was never
  assigned holds the empty set), \<open>phase_dict\<close> from names to phases (the field
  \<open>phase_dict_by_name\<close>, since \<open>phase_dict\<close> names the attribute of \<open>Phase\<close>) and
  \<open>space\<close>.
\<close>

record PhaseData =
  phases :: "Phase list"
  phases_by_elt :: "string \<Rightarrow> pyset"
  phases_by_dim :: "nat \<Rightarrow> pyset"
  phase_dict_by_name :: "string \<rightharpoonup> Phase"
  space :: "string set"

text \<open>\<open>clear\<close> (lines 41-46); \<open>PhaseData()\<close> is \<open>clear\<close> on a new object.\<close>

definition clear :: PhaseData where
  "clear =
     \<lparr>phases = [], phases_by_elt = (\<lambda>_. []), phases_by_dim = (\<lambda>_. []),
      phase_dict_by_name = Map.empty, space = {}\<rparr>"

text \<open>
  \<open>add_phase\<close> (lines 48-76). The list, the dictionary and the sets all refer to the one
  object \<open>phase\<close>, whose \<open>index\<close> line 70 assigns: every reference sees that index, so
  the model stores the phase with the index set. Neither \<open>name\<close>, \<open>energy\<close>, \<open>comp\<close>,
  \<open>__hash__\<close> nor \<open>__eq__\<close> reads \<open>index\<close>. When one object is added a second time
  Python changes the \<open>index\<close> seen through the earlier references as well; the model
  keeps the earlier value there.
\<close>

fun elt_loop ::
  "env \<Rightarrow> string list \<Rightarrow> Phase \<Rightarrow> (string \<Rightarrow> pyset) \<Rightarrow> error + (string \<Rightarrow> pyset)" where
  "elt_loop env [] phase by_elt = Inr by_elt"
| "elt_loop env (elt # elts) phase by_elt =
     (case set_add env (by_elt elt) phase of
        Inl err \<Rightarrow> Inl err
      | Inr s \<Rightarrow> elt_loop env elts phase (by_elt(elt := s)))"

definition add_phase :: "env \<Rightarrow> PhaseData \<Rightarrow> Phase \<Rightarrow> error + PhaseData" where
  "add_phase env self phase0 =
     (let phase = upd_index (Some (length (phases self) + 1)) phase0
      in case name env phase of
           Inl err \<Rightarrow> Inl err
         | Inr nm \<Rightarrow>
             (let pdict =
                    (case phase_dict_by_name self nm of
                       None \<Rightarrow> (phase_dict_by_name self)(nm \<mapsto> phase)
                     | Some old \<Rightarrow>
                         if energy phase < energy old
                         then (phase_dict_by_name self)(nm \<mapsto> phase)
                         else phase_dict_by_name self);
                  self1 = self\<lparr>phase_dict_by_name := pdict, phases := phases self @ [phase]\<rparr>
              in case elt_loop env (dict_keys (comp_attr phase)) phase (phases_by_elt self1) of
                   Inl err \<Rightarrow> Inl err
                 | Inr by_elt \<Rightarrow>
                     (let dim = length (comp_attr phase)
                      in case set_add env (phases_by_dim self1 dim) phase of
                           Inl err \<Rightarrow> Inl err
                         | Inr s \<Rightarrow>
                             Inr (self1\<lparr>phases_by_elt := by_elt,
                                        phases_by_dim := (phases_by_dim self1)(dim := s),
                                        space := space self1
                                          \<union> set (dict_keys (comp_attr phase))\<rparr>))))"

text \<open>\<open>add_phases\<close> (lines 78-87) and the \<open>phases\<close> setter (lines 35-39).\<close>

fun add_phases :: "env \<Rightarrow> PhaseData \<Rightarrow> Phase list \<Rightarrow> error + PhaseData" where
  "add_phases env self [] = Inr self"
| "add_phases env self (phase # rest) =
     (case add_phase env self phase of
        Inl err \<Rightarrow> Inl err
      | Inr self1 \<Rightarrow> add_phases env self1 rest)"

definition set_phases :: "env \<Rightarrow> PhaseData \<Rightarrow> Phase list \<Rightarrow> error + PhaseData" where
  "set_phases env self ps = add_phases env clear ps"

section \<open>\<open>amt\<close> and \<open>fraction\<close> on a store of dictionaries\<close>

text \<open>
  \<open>amt\<close> and \<open>fraction\<close> build a dictionary \<open>residual\<close> and assign to its keys, while
  the compositions of \<open>self\<close> and of the target are other dictionary objects. To tell a
  copy from an alias, the dictionaries live in a store: an address is an index into the
  list of all dictionary objects, and a new object gets the next index. A phase is given
  by the addresses that its attributes \<open>_comp\<close>, \<open>_unit_comp\<close> and \<open>_nom_comp\<close> hold;
  the two methods contain no assignment to an attribute of \<open>self\<close> or of the target.
\<close>

type_synonym store = "dict list"

record phase_ref =
  comp_at :: nat
  unit_comp_at :: nat
  nom_comp_at :: nat

datatype target = TgtPhase phase_ref | TgtStr string | TgtMap nat

definition alloc :: "store \<Rightarrow> dict \<Rightarrow> store \<times> nat" where
  "alloc st d = (st @ [d], length st)"

text \<open>
  The inner loop \<open>for c2, amt2 in comp.items(): residual[c2] -= pres*amt2\<close>, over the
  items that the target holds when the loop starts.
\<close>

fun inner_loop :: "store \<Rightarrow> nat \<Rightarrow> rat \<Rightarrow> dict \<Rightarrow> store" where
  "inner_loop st residual pres [] = st"
| "inner_loop st residual pres ((c2, amt2) # items) =
     (case dd_getitem (st ! residual) c2 of
        (v, d1) \<Rightarrow>
          inner_loop (st[residual := setitem d1 c2 (v - pres * amt2)]) residual pres items)"

text \<open>
  The outer loop \<open>for c, amt in dict(comp).items()\<close>, over the items of the temporary
  copy \<open>dict(comp)\<close>; \<open>residual[c]\<close> inserts a missing key before the division.
\<close>

fun outer_loop :: "store \<Rightarrow> nat \<Rightarrow> nat \<Rightarrow> dict \<Rightarrow> error + store" where
  "outer_loop st residual cmp [] = Inr st"
| "outer_loop st residual cmp ((c, amt) # items) =
     (case dd_getitem (st ! residual) c of
        (v, d1) \<Rightarrow>
          (let st1 = st[residual := d1]
           in case py_div v amt of
                Inl err \<Rightarrow> Inl err
              | Inr pres \<Rightarrow>
                  outer_loop (inner_loop st1 residual pres (st1 ! cmp)) residual cmp items))"

text \<open>
  Lines 310-318 of \<open>amt\<close> and lines 334-342 of \<open>fraction\<close> are the same statements;
  \<open>src\<close> is \<open>self.comp\<close> for the first and \<open>self.unit_comp\<close> for the second. The result
  is the address of \<open>residual\<close> and the store after the call.
\<close>

definition pull_out :: "store \<Rightarrow> nat \<Rightarrow> nat \<Rightarrow> error + (nat \<times> store)" where
  "pull_out st src cmp =
     (case alloc st (st ! src) of
        (st1, residual) \<Rightarrow>
          (let tot = sum_values (st1 ! residual)
           in case outer_loop st1 residual cmp (st1 ! cmp) of
                Inl err \<Rightarrow> Inl err
              | Inr st2 \<Rightarrow>
                  (let st3 = st2[residual :=
                                   setitem (st2 ! residual) ''var''
                                     (tot - sum_values (st2 ! residual))]
                   in case dd_getitem (st3 ! residual) ''var'' of
                        (v, d1) \<Rightarrow>
                          (case py_div v (sum_values (st3 ! cmp)) of
                             Inl err \<Rightarrow> Inl err
                           | Inr q \<Rightarrow>
                               Inr (residual, st3[residual := setitem d1 ''var'' q])))))"

definition amt :: "env \<Rightarrow> store \<Rightarrow> phase_ref \<Rightarrow> target \<Rightarrow> error + (nat \<times> store)" where
  "amt env st self tgt =
     (case tgt of
        TgtPhase q \<Rightarrow> pull_out st (comp_at self) (comp_at q)
      | TgtStr s \<Rightarrow>
          (case parse_comp env s of
             Inl err \<Rightarrow> Inl err
           | Inr m \<Rightarrow> (case alloc st m of (st1, cmp) \<Rightarrow> pull_out st1 (comp_at self) cmp))
      | TgtMap cmp \<Rightarrow> pull_out st (comp_at self) cmp)"

definition fraction :: "env \<Rightarrow> store \<Rightarrow> phase_ref \<Rightarrow> target \<Rightarrow> error + (nat \<times> store)" where
  "fraction env st self tgt =
     (case tgt of
        TgtPhase q \<Rightarrow> pull_out st (unit_comp_at self) (unit_comp_at q)
      | TgtStr s \<Rightarrow>
          (case parse_comp env s of
             Inl err \<Rightarrow> Inl err
           | Inr m \<Rightarrow>
               (case unit_comp m of
                  Inl err \<Rightarrow> Inl err
                | Inr u \<Rightarrow>
                    (case alloc st u of (st1, cmp) \<Rightarrow> pull_out st1 (unit_comp_at self) cmp)))
      | TgtMap cmp \<Rightarrow> pull_out st (unit_comp_at self) cmp)"

text \<open>
  A phase object placed in the store: its three dictionaries become objects of the
  store, and the reference holds their addresses. \<open>d[k]\<close> on a \<open>defaultdict(float)\<close>
  read as a value is \<open>dget d k\<close>.
\<close>

definition store_phase :: "store \<Rightarrow> Phase \<Rightarrow> store \<times> phase_ref" where
  "store_phase st p =
     (st @ [comp_attr p, unit_comp_attr p, nom_comp_attr p],
      \<lparr>comp_at = length st, unit_comp_at = length st + 1, nom_comp_at = length st + 2\<rparr>)"

definition dget :: "dict \<Rightarrow> string \<Rightarrow> rat" where
  "dget d k = fst (dd_getitem d k)"

section \<open>The energy setter on Python numbers\<close>

text \<open>
  A Python \<open>float\<close> is an IEEE 754 binary64 number: a finite value, \<open>inf\<close>, \<open>-inf\<close> or
  \<open>nan\<close>. A finite value is zero or \<open>m * 2 ^ k\<close> for integers \<open>m\<close> and \<open>k\<close> with
  \<open>|m| < 2 ^ 53\<close> and \<open>-1074 \<le> k \<le> 971\<close>. The two zeros \<open>0.0\<close> and \<open>-0.0\<close> are one
  value here: \<open>*\<close> and \<open>/\<close> tell them apart only through a division by zero, which raises
  for both.

  \<open>round_even\<close> rounds a rational to the nearest integer, a tie to the even one.
\<close>

definition round_even :: "rat \<Rightarrow> int" where
  "round_even y =
     (let f = \<lfloor>y\<rfloor>; d = y - of_int f
      in if d < 1 / 2 then f else if 1 / 2 < d then f + 1 else if even f then f else f + 1)"

text \<open>
  \<open>ilog2 x\<close> is the exponent \<open>k\<close> with \<open>2 ^ k \<le> x < 2 ^ (k + 1)\<close>, for \<open>x > 0\<close>: with
  \<open>x = a / b\<close> in lowest terms it is the difference of the bit lengths of \<open>a\<close> and
  \<open>b\<close>, or one less. \<open>quantum x\<close> is the exponent of the last of the 53 bits of \<open>x\<close>, not
  below that of the subnormal numbers.
\<close>

definition ilog2 :: "rat \<Rightarrow> int" where
  "ilog2 x =
     (case quotient_of x of (a, b) \<Rightarrow>
        let k = bitlen a - bitlen b in if 2 powi k \<le> x then k else k - 1)"

definition quantum :: "rat \<Rightarrow> int" where
  "quantum x = max (ilog2 \<bar>x\<bar> - 52) (- 1074)"

text \<open>
  The rounding of every operation: \<open>rnd x\<close> is the multiple of \<open>2 ^ quantum x\<close> nearest to
  \<open>x\<close>, a tie going to the even multiple; \<open>b64 x\<close> is the \<open>float\<close> for the exact result
  \<open>x\<close>, which is infinite when the rounded magnitude reaches \<open>2 ^ 1024\<close>. \<open>Infinite True\<close>
  is \<open>inf\<close> and \<open>Infinite False\<close> is \<open>-inf\<close>.
\<close>

definition rnd :: "rat \<Rightarrow> rat" where
  "rnd x = (if x = 0 then 0
            else of_int (round_even (x / 2 powi quantum x)) * 2 powi quantum x)"

datatype pyfloat = Finite rat | Infinite bool | NaN

definition b64 :: "rat \<Rightarrow> pyfloat" where
  "b64 x = (let r = rnd x in if 2 ^ 1024 \<le> \<bar>r\<bar> then Infinite (0 < r) else Finite r)"

text \<open>
  A Python number is an \<open>int\<close> (unbounded) or a \<open>float\<close>. An \<open>int\<close> operand of a mixed
  operation is converted to the nearest \<open>float\<close>; the conversion raises \<open>OverflowError\<close>
  when there is no finite one.
\<close>

datatype pynum = PyInt int | PyFloat pyfloat

definition to_float :: "pynum \<Rightarrow> error + pyfloat" where
  "to_float v =
     (case v of
        PyFloat f \<Rightarrow> Inr f
      | PyInt i \<Rightarrow> (case b64 (of_int i) of Finite r \<Rightarrow> Inr (Finite r) | _ \<Rightarrow> Inl OverflowError))"

text \<open>
  \<open>*\<close> and \<open>/\<close> on two \<open>float\<close> values: the exact result, rounded. Overflow gives an
  infinity and raises nothing. \<open>fdiv\<close> is called with a divisor other than zero.
\<close>

fun fmul :: "pyfloat \<Rightarrow> pyfloat \<Rightarrow> pyfloat" where
  "fmul (Finite x) (Finite y) = b64 (x * y)"
| "fmul (Finite x) (Infinite s) = (if x = 0 then NaN else Infinite (s = (0 < x)))"
| "fmul (Infinite s) (Finite y) = (if y = 0 then NaN else Infinite (s = (0 < y)))"
| "fmul (Infinite s) (Infinite s') = Infinite (s = s')"
| "fmul NaN y = NaN"
| "fmul x NaN = NaN"

fun fdiv :: "pyfloat \<Rightarrow> pyfloat \<Rightarrow> pyfloat" where
  "fdiv (Finite x) (Finite y) = b64 (x / y)"
| "fdiv (Finite x) (Infinite s) = Finite 0"
| "fdiv (Infinite s) (Finite y) = Infinite (s = (0 < y))"
| "fdiv (Infinite s) (Infinite s') = NaN"
| "fdiv NaN y = NaN"
| "fdiv x NaN = NaN"

text \<open>
  \<open>a * b\<close> and \<open>a / b\<close> on Python numbers. The product of two \<open>int\<close> values is exact. Their
  quotient is the \<open>float\<close> nearest to the exact quotient, and \<open>OverflowError\<close> when that is
  not finite. A zero divisor raises \<open>ZeroDivisionError\<close>.
\<close>

fun mul_b64 :: "pynum \<Rightarrow> pynum \<Rightarrow> error + pynum" where
  "mul_b64 (PyInt i) (PyInt j) = Inr (PyInt (i * j))"
| "mul_b64 a b =
     (case to_float a of
        Inl err \<Rightarrow> Inl err
      | Inr x \<Rightarrow> (case to_float b of Inl err \<Rightarrow> Inl err | Inr y \<Rightarrow> Inr (PyFloat (fmul x y))))"

fun truediv_b64 :: "pynum \<Rightarrow> pynum \<Rightarrow> error + pynum" where
  "truediv_b64 (PyInt i) (PyInt j) =
     (if j = 0 then Inl ZeroDivisionError
      else (case b64 (of_int i / of_int j) of
              Finite r \<Rightarrow> Inr (PyFloat (Finite r))
            | _ \<Rightarrow> Inl OverflowError))"
| "truediv_b64 a b =
     (case to_float a of
        Inl err \<Rightarrow> Inl err
      | Inr x \<Rightarrow>
          (case to_float b of
             Inl err \<Rightarrow> Inl err
           | Inr y \<Rightarrow> if y = Finite 0 then Inl ZeroDivisionError else Inr (PyFloat (fdiv x y))))"

text \<open>
  The \<open>energy\<close> setter (lines 267-271) on these numbers. \<open>n_atoms\<close> and \<open>n_nominal\<close> are the
  values of \<open>sum(self.comp.values())\<close> and \<open>sum(self.nom_comp.values())\<close>; the result holds
  the three attributes \<open>_energy\<close>, \<open>_total_energy\<close> and \<open>_energy_pfu\<close> that the setter
  assigns. As for the setters on exact numbers, an exception is returned alone.
\<close>

record energy_views =
  energy_view :: pynum
  total_energy_view :: pynum
  energy_pfu_view :: pynum

definition set_energy_b64 :: "pynum \<Rightarrow> pynum \<Rightarrow> pynum \<Rightarrow> error + energy_views" where
  "set_energy_b64 n_atoms n_nominal en =
     (case mul_b64 en n_atoms of
        Inl err \<Rightarrow> Inl err
      | Inr tot \<Rightarrow>
          (case truediv_b64 en n_nominal of
             Inl err \<Rightarrow> Inl err
           | Inr pfu \<Rightarrow>
               Inr \<lparr>energy_view = en, total_energy_view = tot, energy_pfu_view = pfu\<rparr>))"

section \<open>Concrete inputs\<close>

text \<open>
  An instance of the parameters, for evaluating the functions on concrete inputs: its
  parser knows the formula \<open>Li2O\<close>, its formatter writes the element symbols of a
  composition one after the other. The general theorems below hold for every instance.
\<close>

definition sample_env :: env where
  "sample_env =
     \<lparr>parse_comp =
        (\<lambda>s. if s = ''Li2O'' then Inr [(''Li'', 2), (''O'', 1)] else Inl ParseError),
      format_comp = (\<lambda>d. concat (map fst d)),
      format_g = (\<lambda>x. ''x''),
      hash_tuple = (\<lambda>ne. int (length (fst ne)))\<rparr>"

text \<open>
  The objects that \<open>Phase({'Fe': 1}, 1)\<close>, \<open>Phase({'Fe': 2}, 1)\<close>,
  \<open>Phase({'Fe': 1}, -1)\<close>, \<open>Phase({'Fe': 1, 'O': 0}, -1)\<close>,
  \<open>Phase({'Fe': 2, 'O': 3}, -3)\<close> and \<open>Phase({'Fe': 2, 'O': 3}, -5)\<close> construct
  (lemma \<open>Phase_init_examples\<close>, which covers the two phases after these as well).
\<close>

definition phase_Fe :: Phase where
  "phase_Fe = Phase [] [(''Fe'', 1)] [(''Fe'', 1)] [(''Fe'', 1)] None None 1 1 1 [] None"

definition phase_Fe2 :: Phase where
  "phase_Fe2 = Phase [] [(''Fe'', 2)] [(''Fe'', 1)] [(''Fe'', 1)] None None 1 2 1 [] None"

definition phase_Fe_low :: Phase where
  "phase_Fe_low =
     Phase [] [(''Fe'', 1)] [(''Fe'', 1)] [(''Fe'', 1)] None None (- 1) (- 1) (- 1) [] None"

definition phase_Fe_O0 :: Phase where
  "phase_Fe_O0 =
     Phase [] [(''Fe'', 1), (''O'', 0)] [(''Fe'', 1), (''O'', 0)] [(''Fe'', 1), (''O'', 0)]
       None None (- 1) (- 1) (- 1) [] None"

definition phase_Fe2O3_a :: Phase where
  "phase_Fe2O3_a =
     Phase [] [(''Fe'', 2), (''O'', 3)] [(''Fe'', 2 / 5), (''O'', 3 / 5)]
       [(''Fe'', 2), (''O'', 3)] None None (- 3) (- 15) (- (3 / 5)) [] None"

definition phase_Fe2O3_b :: Phase where
  "phase_Fe2O3_b =
     Phase [] [(''Fe'', 2), (''O'', 3)] [(''Fe'', 2 / 5), (''O'', 3 / 5)]
       [(''Fe'', 2), (''O'', 3)] None None (- 5) (- 25) (- 1) [] None"

text \<open>
  \<open>Phase({'Fe': 1, 'Li': 5, 'O': 8}, -1)\<close>, the example of the docstrings of \<open>amt\<close>
  and \<open>fraction\<close>, and \<open>Phase({'Fe': 1, 'var': 5}, 1)\<close>, a phase with a key \<open>'var'\<close>.
  Placed in an empty store, the dictionaries of each phase are at the addresses 0, 1 and
  2; a target mapping follows at the address 3.
\<close>

definition phase_FeLi5O8 :: Phase where
  "phase_FeLi5O8 =
     Phase [] [(''Fe'', 1), (''Li'', 5), (''O'', 8)]
       [(''Fe'', 1 / 14), (''Li'', 5 / 14), (''O'', 4 / 7)]
       [(''Fe'', 1), (''Li'', 5), (''O'', 8)] None None (- 1) (- 14) (- (1 / 14)) [] None"

definition phase_Fe_var :: Phase where
  "phase_Fe_var =
     Phase [] [(''Fe'', 1), (''var'', 5)] [(''Fe'', 1 / 6), (''var'', 5 / 6)]
       [(''Fe'', 1), (''var'', 5)] None None 1 6 (1 / 6) [] None"

definition store_with :: "Phase \<Rightarrow> dict \<Rightarrow> store" where
  "store_with p t = fst (store_phase [] p) @ [t]"

definition self_ref :: phase_ref where
  "self_ref = \<lparr>comp_at = 0, unit_comp_at = 1, nom_comp_at = 2\<rparr>"

section \<open>Stated properties\<close>

text \<open>
  The invariant of the three energy views, as the specification words it:
  \<open>total_energy = energy * n_atoms = energy_pfu * n_nominal_atoms\<close>, with
  \<open>n_atoms = sum(comp.values())\<close> and \<open>n_nominal_atoms = sum(nom_comp.values())\<close>.
\<close>

definition energy_views_synchronized :: "Phase \<Rightarrow> bool" where
  "energy_views_synchronized p \<longleftrightarrow>
     total_energy p = energy p * sum_values (comp_attr p) \<and>
     total_energy p = energy_pfu p * sum_values (nom_comp_attr p)"

text \<open>
  Equality of phases as the specification words it: the same set of elements with a
  nonzero amount, energies within \<open>1e-6\<close>, and unit-composition fractions within
  \<open>1e-6\<close> for every element of that set.
\<close>

definition support :: "Phase \<Rightarrow> string set" where
  "support p = set (map fst (filter (\<lambda>kv. snd kv \<noteq> 0) (comp_attr p)))"

definition equal_as_stated :: "Phase \<Rightarrow> Phase \<Rightarrow> bool" where
  "equal_as_stated p q \<longleftrightarrow>
     support p = support q \<and>
     \<bar>energy p - energy q\<bar> \<le> 1 / 1000000 \<and>
     (\<forall>e \<in> support p.
        \<bar>dget (unit_comp_attr p) e - dget (unit_comp_attr q) e\<bar> \<le> 1 / 1000000)"

text \<open>
  The unit composition of a phase has every key of its composition, as the \<open>comp\<close>
  setter leaves it; and every member of the two indexes of a container is such a phase.
\<close>

definition unit_comp_covers :: "Phase \<Rightarrow> bool" where
  "unit_comp_covers p \<longleftrightarrow>
     set (dict_keys (comp_attr p)) \<subseteq> set (dict_keys (unit_comp_attr p))"

definition covered :: "PhaseData \<Rightarrow> bool" where
  "covered self \<longleftrightarrow>
     (\<forall>E. \<forall>y \<in> snd ` set (phases_by_elt self E). unit_comp_covers y) \<and>
     (\<forall>d. \<forall>y \<in> snd ` set (phases_by_dim self d). unit_comp_covers y)"

text \<open>
  The phase objects after a sequence of \<open>add_phase\<close> calls on an empty container: the
  phase added by the \<open>i\<close>-th call (counting from 0) has \<open>index = i + 1\<close>.
\<close>

definition indexed :: "Phase list \<Rightarrow> Phase list" where
  "indexed ps = map (\<lambda>ip. upd_index (Some (Suc (fst ip))) (snd ip)) (enumerate 0 ps)"

text \<open>
  Position \<open>i\<close> holds the phase that \<open>phase_dict[nm]\<close> is to hold after the phases
  \<open>ps\<close> were added in this order: it is named \<open>nm\<close>, no phase of that name has a lower
  energy, and none of the same energy was added before it.
\<close>

definition lowest_first :: "env \<Rightarrow> Phase list \<Rightarrow> string \<Rightarrow> nat \<Rightarrow> bool" where
  "lowest_first env ps nm i \<longleftrightarrow>
     i < length ps \<and> name env (ps ! i) = Inr nm \<and>
     (\<forall>j < length ps. name env (ps ! j) = Inr nm \<longrightarrow>
        energy (ps ! i) \<le> energy (ps ! j) \<and>
        (energy (ps ! j) = energy (ps ! i) \<longrightarrow> i \<le> j))"

text \<open>
  The invariant of \<open>phase_dict\<close> over the calls: a name that no added phase has is not
  a key, and every other name maps to the stored object of the first phase of lowest
  energy with that name.
\<close>

definition dict_holds_lowest :: "env \<Rightarrow> Phase list \<Rightarrow> (string \<rightharpoonup> Phase) \<Rightarrow> bool" where
  "dict_holds_lowest env ps d \<longleftrightarrow>
     (\<forall>nm. case d nm of
             None \<Rightarrow> (\<forall>j < length ps. name env (ps ! j) \<noteq> Inr nm)
           | Some q \<Rightarrow> (\<exists>i. lowest_first env ps nm i \<and> q = indexed ps ! i))"

text \<open>
  The invariant of the two indexes over the calls: the members of \<open>phases_by_elt[E]\<close>
  are stored phases with the key \<open>E\<close>, and for every stored phase \<open>q\<close> with the key
  \<open>E\<close> the test \<open>q in phases_by_elt[E]\<close> is \<open>True\<close>; likewise for \<open>phases_by_dim[d]\<close>
  and the phases with \<open>len(comp) = d\<close>.
\<close>

definition indexes_hold :: "env \<Rightarrow> Phase list \<Rightarrow> PhaseData \<Rightarrow> bool" where
  "indexes_hold env ps self \<longleftrightarrow>
     (\<forall>E. snd ` set (phases_by_elt self E)
             \<subseteq> {q \<in> set (indexed ps). E \<in> set (dict_keys (comp_attr q))}) \<and>
     (\<forall>E. \<forall>q \<in> set (indexed ps). E \<in> set (dict_keys (comp_attr q)) \<longrightarrow>
             set_contains env (phases_by_elt self E) q = Inr True) \<and>
     (\<forall>d. snd ` set (phases_by_dim self d)
             \<subseteq> {q \<in> set (indexed ps). length (comp_attr q) = d}) \<and>
     (\<forall>d. \<forall>q \<in> set (indexed ps). length (comp_attr q) = d \<longrightarrow>
             set_contains env (phases_by_dim self d) q = Inr True)"

text \<open>
  The value of a Python number as a rational (0 for an infinity or \<open>nan\<close>), and the ranges
  for which the round trip of the per-atom energy is stated: an energy that is an \<open>int\<close>
  or a finite \<open>float\<close> of magnitude at most \<open>3 * 10 ^ 6\<close>, and an atom count that is an
  \<open>int\<close> from 1 to \<open>2 ^ 64\<close> or a \<open>float\<close> from \<open>2 ^ -64\<close> to \<open>2 ^ 64\<close>. The relative error
  of one rounding is at most \<open>unit_roundoff\<close>, and the absolute error of a rounding to a
  subnormal number at most \<open>tiny\<close>.
\<close>

definition num_val :: "pynum \<Rightarrow> rat" where
  "num_val v = (case v of PyInt i \<Rightarrow> of_int i | PyFloat (Finite x) \<Rightarrow> x | _ \<Rightarrow> 0)"

definition finite_num :: "pynum \<Rightarrow> bool" where
  "finite_num v \<longleftrightarrow> (case v of PyInt i \<Rightarrow> True | PyFloat (Finite x) \<Rightarrow> True | _ \<Rightarrow> False)"

definition moderate_energy :: "pynum \<Rightarrow> bool" where
  "moderate_energy e \<longleftrightarrow> finite_num e \<and> \<bar>num_val e\<bar> \<le> 3000000"

definition atom_count :: "pynum \<Rightarrow> bool" where
  "atom_count n \<longleftrightarrow>
     (case n of
        PyInt i \<Rightarrow> 0 < i \<and> i \<le> 2 ^ 64
      | PyFloat (Finite x) \<Rightarrow> 1 / 2 ^ 64 \<le> x \<and> x \<le> 2 ^ 64
      | _ \<Rightarrow> False)"

definition unit_roundoff :: rat where
  "unit_roundoff = 1 / 2 ^ 53"

definition tiny :: rat where
  "tiny = 1 / 2 ^ 1075"

section \<open>The helpers and the constructor\<close>

lemmas upd_defs =
  upd_description_def upd_comp_attr_def upd_unit_comp_attr_def upd_nom_comp_attr_def
  upd_stability_def upd_custom_name_def upd_energy_def upd_total_energy_def
  upd_energy_pfu_def upd_phase_dict_def upd_index_def

lemma quotient_of_zero_iff: "quotient_of a = (p, q) \<Longrightarrow> p = 0 \<longleftrightarrow> a = 0"
  by (metis Fract_of_int_quotient div_0 of_int_0 quotient_of_div rat_zero_code
      fst_conv of_int_eq_0_iff)

lemma gcd_rat_eq_0_iff: "gcd_rat a b = 0 \<longleftrightarrow> a = 0 \<and> b = 0"
proof -
  obtain p q where a: "quotient_of a = (p, q)" by (cases "quotient_of a")
  obtain r s where b: "quotient_of b = (r, s)" by (cases "quotient_of b")
  have q: "q > 0" and s: "s > 0"
    using a b quotient_of_denom_pos by blast+
  have "gcd_rat a b = 0 \<longleftrightarrow> p = 0 \<and> r = 0"
    using q s by (simp add: gcd_rat_def a b)
  then show ?thesis
    using quotient_of_zero_iff [OF a] quotient_of_zero_iff [OF b] by simp
qed

lemma fold_gcd_rat_eq_0_iff: "fold gcd_rat vs g = 0 \<longleftrightarrow> g = 0 \<and> (\<forall>v \<in> set vs. v = 0)"
  by (induction vs arbitrary: g) (auto simp: gcd_rat_eq_0_iff)

lemma gcd_amounts_eq_0_iff: "gcd_amounts vs = 0 \<longleftrightarrow> (\<forall>v \<in> set vs. v = 0)"
  by (simp add: gcd_amounts_def fold_gcd_rat_eq_0_iff)

lemma sum_values_scaled: "sum_values (map (\<lambda>(k, v). (k, v / g)) c) = sum_values c / g"
  by (induction c) (auto simp: sum_values_def add_divide_distrib)

lemma sum_values_nonzero_amount: "sum_values c \<noteq> 0 \<Longrightarrow> \<exists>v \<in> set (map snd c). v \<noteq> 0"
  by (induction c) (auto simp: sum_values_def)

lemma unit_comp_ok:
  "sum_values c \<noteq> 0 \<Longrightarrow> unit_comp c = Inr (map (\<lambda>(k, v). (k, v / sum_values c)) c)"
  by (simp add: unit_comp_def)

lemma reduce_comp_ok:
  assumes "sum_values c \<noteq> 0"
  shows "\<exists>r. reduce_comp c = Inr r \<and> sum_values r \<noteq> 0"
proof -
  have g: "gcd_amounts (map snd c) \<noteq> 0"
    using sum_values_nonzero_amount [OF assms] by (simp add: gcd_amounts_eq_0_iff)
  then show ?thesis
    using assms by (simp add: reduce_comp_def Let_def sum_values_scaled)
qed

lemma set_comp_ok:
  assumes "sum_values c \<noteq> 0"
  shows "\<exists>p'. set_comp p c = Inr p' \<and> comp_attr p' = c \<and> sum_values (nom_comp_attr p') \<noteq> 0
           \<and> custom_name p' = custom_name p \<and> phase_dict p' = phase_dict p"
proof -
  obtain r where r: "reduce_comp c = Inr r" "sum_values r \<noteq> 0"
    using reduce_comp_ok [OF assms] by blast
  show ?thesis
    by (simp add: set_comp_def unit_comp_ok [OF assms] r upd_defs)
qed

lemma set_comp_zero_sum:
  "sum_values c = 0 \<Longrightarrow>
     set_comp p c = Inl ZeroDivisionError \<or>
     (c = [] \<and> set_comp p c = Inr (upd_nom_comp_attr [] (upd_unit_comp_attr [] (upd_comp_attr [] p))))"
  by (cases "c = []") (simp_all add: set_comp_def unit_comp_def reduce_comp_def)

text \<open>The concrete phases are the objects that the constructor builds.\<close>

lemma gcd_amounts_examples:
  "gcd_amounts [1] = 1" "gcd_amounts [2] = 2" "gcd_amounts [1, 0] = 1" "gcd_amounts [2, 3] = 1"
  "gcd_amounts [1, 5, 8] = 1" "gcd_amounts [1, 5] = 1"
  by (simp_all add: gcd_amounts_def gcd_rat_def)

lemma Phase_init_examples:
  "Phase_init env (Some (CompMap [(''Fe'', 1)])) (Some 1) [] True None False [] = Inr phase_Fe"
  "Phase_init env (Some (CompMap [(''Fe'', 2)])) (Some 1) [] True None False [] = Inr phase_Fe2"
  "Phase_init env (Some (CompMap [(''Fe'', 1)])) (Some (- 1)) [] True None False [] = Inr phase_Fe_low"
  "Phase_init env (Some (CompMap [(''Fe'', 1), (''O'', 0)])) (Some (- 1)) [] True None False []
     = Inr phase_Fe_O0"
  "Phase_init env (Some (CompMap [(''Fe'', 2), (''O'', 3)])) (Some (- 3)) [] True None False []
     = Inr phase_Fe2O3_a"
  "Phase_init env (Some (CompMap [(''Fe'', 2), (''O'', 3)])) (Some (- 5)) [] True None False []
     = Inr phase_Fe2O3_b"
  "Phase_init env (Some (CompMap [(''Fe'', 1), (''Li'', 5), (''O'', 8)])) (Some (- 1)) [] True None
     False [] = Inr phase_FeLi5O8"
  "Phase_init env (Some (CompMap [(''Fe'', 1), (''var'', 5)])) (Some 1) [] True None False []
     = Inr phase_Fe_var"
  by (simp_all add: Phase_init_def set_comp_def unit_comp_def reduce_comp_def gcd_amounts_examples
      sum_values_def set_energy_def py_div_def new_object_def upd_defs
      phase_Fe_def phase_Fe2_def phase_Fe_low_def phase_Fe_O0_def phase_Fe2O3_a_def phase_Fe2O3_b_def
      phase_FeLi5O8_def phase_Fe_var_def)

section \<open>The energy views\<close>

text \<open>
  Counterexample to C1 as stated. \<open>p = Phase({'Fe': 1}, 1)\<close> has energy, total energy
  and energy per formula unit 1; after \<open>p.energy_pfu = 2\<close> the other two views are still
  1, so \<open>total_energy = energy_pfu * n_nominal_atoms\<close> fails (1 against 2). And
  \<open>Phase({'Fe': 2}, 1)\<close>, on which \<open>p.energy = 1\<close> changes nothing, has total energy 2
  but \<open>energy_pfu * n_nominal_atoms = 1\<close>: the \<open>energy\<close> setter stores
  \<open>energy / n_nominal_atoms\<close> as \<open>energy_pfu\<close>. All numbers are exact in binary
  floating point.
\<close>

theorem energy_views_counterexample:
  "comp_attr phase_Fe \<noteq> [] \<and>
   \<not> energy_views_synchronized (set_energy_pfu phase_Fe 2) \<and>
   comp_attr phase_Fe2 \<noteq> [] \<and>
   set_energy phase_Fe2 1 = Inr phase_Fe2 \<and>
   \<not> energy_views_synchronized phase_Fe2"
  by (simp add: energy_views_synchronized_def set_energy_pfu_def set_energy_def py_div_def
      sum_values_def upd_defs phase_Fe_def phase_Fe2_def)

text \<open>
  Claim C1, amended. For a phase whose atom counts \<open>sum(comp.values())\<close> and
  \<open>sum(nom_comp.values())\<close> are not zero: an assignment to \<open>total_energy\<close> stores the
  value, \<open>energy = total_energy / n_atoms\<close> and
  \<open>energy_pfu = total_energy / n_nominal_atoms\<close>, so that in exact arithmetic
  \<open>total_energy = energy * n_atoms = energy_pfu * n_nominal_atoms\<close> holds after it; an
  assignment to \<open>energy\<close> stores the value and \<open>total_energy = energy * n_atoms\<close>; an
  assignment to \<open>energy_pfu\<close> stores the value and leaves \<open>energy\<close> and
  \<open>total_energy\<close> as they were.
\<close>

theorem energy_setters:
  assumes "sum_values (comp_attr p) \<noteq> 0" and "sum_values (nom_comp_attr p) \<noteq> 0"
  shows "(\<exists>p'. set_total_energy p x = Inr p' \<and>
               total_energy p' = x \<and>
               energy p' = x / sum_values (comp_attr p') \<and>
               energy_pfu p' = x / sum_values (nom_comp_attr p') \<and>
               energy_views_synchronized p' \<and>
               comp_attr p' = comp_attr p \<and> nom_comp_attr p' = nom_comp_attr p) \<and>
         (\<exists>p'. set_energy p x = Inr p' \<and>
               energy p' = x \<and>
               total_energy p' = energy p' * sum_values (comp_attr p') \<and>
               comp_attr p' = comp_attr p \<and> nom_comp_attr p' = nom_comp_attr p) \<and>
         energy_pfu (set_energy_pfu p x) = x \<and>
         energy (set_energy_pfu p x) = energy p \<and>
         total_energy (set_energy_pfu p x) = total_energy p"
  using assms
  by (simp add: set_total_energy_def set_energy_def set_energy_pfu_def py_div_def Let_def
      energy_views_synchronized_def upd_defs)

theorem energy_setters_witness:
  "sum_values (comp_attr phase_Fe2O3_a) \<noteq> 0 \<and>
   sum_values (nom_comp_attr phase_Fe2O3_a) \<noteq> 0 \<and>
   (\<exists>p'. set_total_energy phase_Fe2O3_a (- 10) = Inr p' \<and>
         total_energy p' = - 10 \<and> energy p' = - 2 \<and> energy_pfu p' = - 2 \<and>
         energy_views_synchronized p') \<and>
   (\<exists>p'. set_energy phase_Fe2O3_a (- 10) = Inr p' \<and> energy p' = - 10 \<and> total_energy p' = - 50) \<and>
   energy_pfu (set_energy_pfu phase_Fe2O3_a (- 10)) = - 10 \<and>
   energy (set_energy_pfu phase_Fe2O3_a (- 10)) = - 3 \<and>
   total_energy (set_energy_pfu phase_Fe2O3_a (- 10)) = - 15"
proof -
  have c: "sum_values (comp_attr phase_Fe2O3_a) = 5"
    and r: "sum_values (nom_comp_attr phase_Fe2O3_a) = 5"
    and e: "energy phase_Fe2O3_a = - 3" "total_energy phase_Fe2O3_a = - 15"
    by (simp_all add: phase_Fe2O3_a_def sum_values_def)
  have c0: "sum_values (comp_attr phase_Fe2O3_a) \<noteq> 0"
    and r0: "sum_values (nom_comp_attr phase_Fe2O3_a) \<noteq> 0"
    by (simp_all add: c r)
  show ?thesis
    using energy_setters [OF c0 r0, of "- 10"] by (auto simp: c r e)
qed

section \<open>Construction\<close>

text \<open>
  Claim C8. \<open>Phase(...)\<close> raises \<open>PhaseError\<close> when the composition or the energy is
  \<open>None\<close>, and construction from a composition whose amounts sum to zero (empty, or
  all amounts zero) fails: with \<open>ZeroDivisionError\<close>, raised by the first division by
  the atom count, for either value of \<open>per_atom\<close>. In the source itself the
  \<open>total_energy\<close> setter fails on a zero \<open>sum(comp.values())\<close> and the \<open>energy\<close>
  setter on a zero \<open>sum(nom_comp.values())\<close>.
\<close>

theorem Phase_init_failures:
  "Phase_init env None en descr per_atom stab tot nm = Inl PhaseError \<and>
   Phase_init env cmp None descr per_atom stab tot nm = Inl PhaseError \<and>
   (sum_values m = 0 \<longrightarrow>
      Phase_init env (Some (CompMap m)) (Some e) descr per_atom stab tot nm
        = Inl ZeroDivisionError) \<and>
   (parse_comp env s = Inr m \<and> sum_values m = 0 \<longrightarrow>
      Phase_init env (Some (CompStr s)) (Some e) descr per_atom stab tot nm
        = Inl ZeroDivisionError) \<and>
   (sum_values (comp_attr p) = 0 \<longrightarrow> set_total_energy p e = Inl ZeroDivisionError) \<and>
   (sum_values (nom_comp_attr p) = 0 \<longrightarrow> set_energy p e = Inl ZeroDivisionError)"
proof -
  have none: "Phase_init env None en descr per_atom stab tot nm = Inl PhaseError"
    by (simp add: Phase_init_def)
  have none': "Phase_init env cmp None descr per_atom stab tot nm = Inl PhaseError"
    by (simp add: Phase_init_def split: option.splits)
  have zero: "(case set_comp (upd_description descr new_object) m of
                 Inl err \<Rightarrow> Inl err
               | Inr p1 \<Rightarrow>
                   (let p2 = upd_stability stab p1;
                        p3 = (if nm \<noteq> [] then upd_custom_name (Some nm) p2 else p2)
                    in if \<not> per_atom then set_total_energy p3 e else set_energy p3 e))
              = Inl ZeroDivisionError" if "sum_values m = 0"
    using set_comp_zero_sum [OF that, of "upd_description descr new_object"]
    by (auto simp: set_total_energy_def set_energy_def py_div_def Let_def upd_defs sum_values_def)
  have setters:
    "sum_values (comp_attr p) = 0 \<longrightarrow> set_total_energy p e = Inl ZeroDivisionError"
    "sum_values (nom_comp_attr p) = 0 \<longrightarrow> set_energy p e = Inl ZeroDivisionError"
    by (simp_all add: set_total_energy_def set_energy_def py_div_def Let_def upd_defs)
  show ?thesis
    using none none' zero setters by (simp add: Phase_init_def)
qed

theorem Phase_init_failures_witness:
  "Phase_init sample_env None (Some 1) [] True None False [] = Inl PhaseError \<and>
   Phase_init sample_env (Some (CompMap [(''Fe'', 1)])) None [] True None False [] = Inl PhaseError \<and>
   sum_values [(''Fe'', 0), (''O'', 0)] = 0 \<and>
   Phase_init sample_env (Some (CompMap [(''Fe'', 0), (''O'', 0)])) (Some 1) [] True None False []
     = Inl ZeroDivisionError \<and>
   sum_values [] = 0 \<and>
   Phase_init sample_env (Some (CompMap [])) (Some 1) [] True None False [] = Inl ZeroDivisionError"
  using Phase_init_failures [of sample_env "Some 1" "[]" True None False "[]"
      "Some (CompMap [(''Fe'', 1)])" "[(''Fe'', 0), (''O'', 0)]" 1 "[]" phase_Fe]
    Phase_init_failures [of sample_env "Some 1" "[]" True None False "[]"
      "Some (CompMap [(''Fe'', 1)])" "[]" 1 "[]" phase_Fe]
  by (simp add: sum_values_def)

text \<open>
  With \<open>per_atom=True\<close> the constructor ends with \<open>self.energy = energy\<close> (line 146). On
  exact numbers the object is constructed for every composition whose amounts do not sum
  to zero, with the energy as given and \<open>total_energy = e * sum(comp.values())\<close>.
\<close>

lemma Phase_init_per_atom:
  assumes "sum_values m \<noteq> 0"
  shows "\<exists>p. Phase_init env (Some (CompMap m)) (Some e) descr True stab tot nm = Inr p \<and>
             energy p = e \<and>
             total_energy p = e * sum_values m"
proof -
  obtain p1 where p1: "set_comp (upd_description descr new_object) m = Inr p1"
    "comp_attr p1 = m" "sum_values (nom_comp_attr p1) \<noteq> 0"
    using set_comp_ok [OF assms] by blast
  show ?thesis
    using assms p1
    by (simp add: Phase_init_def Let_def set_energy_def py_div_def upd_defs)
qed

section \<open>The per-atom energy on binary floating point\<close>

text \<open>Rounding to the nearest integer is off by at most one half.\<close>

lemma round_even_error: "\<bar>of_int (round_even y) - y\<bar> \<le> 1 / 2"
proof -
  have "of_int \<lfloor>y\<rfloor> \<le> y" and "y < of_int \<lfloor>y\<rfloor> + 1"
    by linarith+
  then show ?thesis
    by (auto simp: round_even_def Let_def)
qed

lemma ilog2_le:
  assumes "0 < x"
  shows "2 powi ilog2 x \<le> x"
proof -
  obtain a b where ab: "quotient_of x = (a, b)" by (cases "quotient_of x")
  have b: "0 < b" and x: "x = of_int a / of_int b"
    using ab quotient_of_denom_pos quotient_of_div by blast+
  have a: "0 < a"
    using assms b by (simp add: x zero_less_divide_iff)
  define k where "k = bitlen a - bitlen b"
  show ?thesis
  proof (cases "2 powi k \<le> x")
    case True
    then show ?thesis
      by (simp add: ilog2_def ab k_def Let_def)
  next
    case False
    have la: "1 \<le> bitlen a" and lb: "1 \<le> bitlen b"
      using a b by (simp_all add: bitlen_alt_def)
    have "(2::int) ^ nat (bitlen a - 1) \<le> a" and "b < 2 ^ nat (bitlen b)"
      using bitlen_bounds [OF a] bitlen_bounds [OF b] by simp_all
    then have lo: "(2::rat) ^ nat (bitlen a - 1) \<le> of_int a"
      and hi: "of_int b \<le> (2::rat) ^ nat (bitlen b)"
      by (metis of_int_le_iff of_int_numeral of_int_power,
          metis less_imp_le of_int_le_iff of_int_numeral of_int_power)
    have "(2::rat) powi (k - 1) = 2 powi (bitlen a - 1) / 2 powi bitlen b"
      by (simp add: k_def power_int_diff)
    also have "\<dots> = 2 ^ nat (bitlen a - 1) / 2 ^ nat (bitlen b)"
      using la lb by (simp add: power_int_def)
    also have "\<dots> \<le> of_int a / of_int b"
      using lo hi a b by (intro frac_le) simp_all
    finally have "(2::rat) powi (k - 1) \<le> x"
      by (simp add: x)
    with False show ?thesis
      by (simp add: ilog2_def ab k_def Let_def)
  qed
qed

text \<open>
  One rounding changes \<open>x\<close> by at most \<open>|x| * 2 ^ -53\<close>, or by \<open>2 ^ -1075\<close> among the
  subnormal numbers; below \<open>2 ^ 1000\<close> the result is finite.
\<close>

lemma roundoff_nonneg: "0 \<le> unit_roundoff" "0 \<le> tiny"
  by (simp_all add: unit_roundoff_def tiny_def)

lemma rnd_error: "\<bar>rnd x - x\<bar> \<le> \<bar>x\<bar> * unit_roundoff + tiny"
proof (cases "x = 0")
  case True
  then show ?thesis using roundoff_nonneg by (simp add: rnd_def)
next
  case False
  define q where "q = quantum x"
  define y where "y = x / 2 powi q"
  have pos: "(0::rat) < 2 powi q"
    by (simp add: power_int_def)
  have "rnd x - x = (of_int (round_even y) - y) * 2 powi q"
    using False pos by (simp add: rnd_def q_def y_def algebra_simps)
  then have "\<bar>rnd x - x\<bar> = \<bar>of_int (round_even y) - y\<bar> * 2 powi q"
    using pos by (simp add: abs_mult)
  also have "\<dots> \<le> 1 / 2 * 2 powi q"
    using round_even_error [of y] pos by (intro mult_right_mono) simp_all
  finally have half: "\<bar>rnd x - x\<bar> \<le> 2 powi q / 2"
    by simp
  have "2 powi q / 2 \<le> \<bar>x\<bar> * unit_roundoff + tiny"
  proof (cases "- 1074 \<le> ilog2 \<bar>x\<bar> - 52")
    case True
    then have "q = ilog2 \<bar>x\<bar> - 52"
      by (simp add: q_def quantum_def)
    then have "(2::rat) powi q = 2 powi ilog2 \<bar>x\<bar> / 2 ^ 52"
      by (simp add: power_int_diff)
    also have "\<dots> \<le> \<bar>x\<bar> / 2 ^ 52"
      using ilog2_le [of "\<bar>x\<bar>"] False by (intro divide_right_mono) simp_all
    finally have "2 powi q / 2 \<le> \<bar>x\<bar> * unit_roundoff"
      by (simp add: unit_roundoff_def)
    with roundoff_nonneg(2) show ?thesis
      by linarith
  next
    case False
    then have "q = - 1074"
      by (simp add: q_def quantum_def)
    then have "(2::rat) powi q / 2 = tiny"
      by (simp add: power_int_minus_divide tiny_def)
    moreover have "0 \<le> \<bar>x\<bar> * unit_roundoff"
      using roundoff_nonneg(1) by simp
    ultimately show ?thesis
      by linarith
  qed
  with half show ?thesis by linarith
qed

lemma roundoff_le_1: "unit_roundoff \<le> 1" "tiny \<le> 1"
  by (simp_all add: unit_roundoff_def tiny_def)

lemma rnd_bound: "\<bar>rnd x\<bar> \<le> \<bar>x\<bar> + \<bar>x\<bar> * unit_roundoff + tiny"
  using rnd_error [of x] by linarith

lemma rnd_bound2: "\<bar>rnd x\<bar> \<le> 2 * \<bar>x\<bar> + 1"
proof -
  have "\<bar>x\<bar> * unit_roundoff \<le> \<bar>x\<bar> * 1"
    using roundoff_le_1(1) by (intro mult_left_mono) simp_all
  with rnd_bound [of x] roundoff_le_1(2) show ?thesis
    by linarith
qed

lemma b64_finite:
  assumes "\<bar>x\<bar> \<le> 2 ^ 1000"
  shows "b64 x = Finite (rnd x)"
proof -
  have "\<bar>rnd x\<bar> \<le> 2 * 2 ^ 1000 + (1::rat)"
    using rnd_bound2 [of x] assms by linarith
  also have "\<dots> < 2 ^ 1024"
    by simp
  finally show ?thesis
    by (simp add: b64_def Let_def)
qed

text \<open>
  Multiplying by an atom count and dividing by it again rounds twice.
\<close>

lemma round_trip_rat:
  assumes "0 < n"
  shows "\<bar>rnd (rnd (e * n) / n) - e\<bar>
           \<le> 2 * (\<bar>e\<bar> * unit_roundoff) + \<bar>e\<bar> * unit_roundoff * unit_roundoff
               + tiny / n * unit_roundoff + tiny / n + tiny"
proof -
  define t where "t = rnd (e * n)"
  define q where "q = t / n"
  define A where "A = \<bar>e\<bar> * unit_roundoff"
  define B where "B = tiny / n"
  have "\<bar>t - e * n\<bar> \<le> \<bar>e * n\<bar> * unit_roundoff + tiny"
    unfolding t_def by (rule rnd_error)
  then have h1: "\<bar>t - e * n\<bar> \<le> A * n + tiny"
    using assms by (simp add: abs_mult A_def algebra_simps)
  have "q - e = (t - e * n) / n"
    using assms by (simp add: q_def field_simps)
  then have "\<bar>q - e\<bar> = \<bar>t - e * n\<bar> / n"
    using assms by simp
  also have "\<dots> \<le> (A * n + tiny) / n"
    using h1 assms by (intro divide_right_mono) simp_all
  also have "\<dots> = A + B"
    using assms by (simp add: B_def field_simps)
  finally have qe: "\<bar>q - e\<bar> \<le> A + B" .
  then have "\<bar>q\<bar> \<le> \<bar>e\<bar> + A + B"
    by linarith
  then have "\<bar>q\<bar> * unit_roundoff \<le> (\<bar>e\<bar> + A + B) * unit_roundoff"
    using roundoff_nonneg(1) by (intro mult_right_mono)
  also have "\<dots> = A + A * unit_roundoff + B * unit_roundoff"
    by (simp add: A_def algebra_simps)
  finally have qu: "\<bar>q\<bar> * unit_roundoff \<le> A + A * unit_roundoff + B * unit_roundoff" .
  have "\<bar>rnd q - q\<bar> \<le> \<bar>q\<bar> * unit_roundoff + tiny"
    by (rule rnd_error)
  with qe qu have "\<bar>rnd q - e\<bar> \<le> 2 * A + A * unit_roundoff + B * unit_roundoff + B + tiny"
    by linarith
  then show ?thesis
    by (simp add: q_def t_def A_def B_def)
qed

lemma numeric_bound:
  "2 * (3000001 * unit_roundoff) + 3000001 * unit_roundoff * unit_roundoff
     + tiny * 2 ^ 65 * unit_roundoff + tiny * 2 ^ 65 + tiny
     + (3000000 * unit_roundoff + tiny) \<le> 1 / 10 ^ 9"
  by (simp add: unit_roundoff_def tiny_def)

lemma energy_to_float:
  assumes "moderate_energy e"
  shows "\<exists>e'. to_float e = Inr (Finite e') \<and>
              \<bar>e' - num_val e\<bar> \<le> 3000000 * unit_roundoff + tiny \<and> \<bar>e'\<bar> \<le> 3000001"
proof (cases e)
  case (PyInt i)
  have small: "\<bar>of_int i\<bar> \<le> (3000000::rat)"
    using assms by (simp add: moderate_energy_def num_val_def PyInt)
  then have "\<bar>of_int i :: rat\<bar> \<le> 2 ^ 1000"
    by (rule order_trans) simp
  then have fin: "b64 (of_int i) = Finite (rnd (of_int i))"
    by (rule b64_finite)
  have "\<bar>of_int i\<bar> * unit_roundoff \<le> 3000000 * unit_roundoff"
    using small roundoff_nonneg(1) by (intro mult_right_mono)
  with rnd_error [of "of_int i"]
  have err: "\<bar>rnd (of_int i) - of_int i\<bar> \<le> 3000000 * unit_roundoff + tiny"
    by linarith
  have "3000000 * unit_roundoff + tiny \<le> 1"
    by (simp add: unit_roundoff_def tiny_def)
  with err small have "\<bar>rnd (of_int i)\<bar> \<le> 3000001"
    by linarith
  with err show ?thesis
    by (simp add: PyInt to_float_def fin num_val_def)
next
  case (PyFloat f)
  with assms obtain x where f: "f = Finite x" and x: "\<bar>x\<bar> \<le> 3000000"
    by (cases f) (simp_all add: moderate_energy_def finite_num_def num_val_def)
  have "0 \<le> 3000000 * unit_roundoff + tiny"
    using roundoff_nonneg by simp
  with x show ?thesis
    by (simp add: PyFloat f to_float_def num_val_def)
qed

lemma count_to_float:
  assumes "atom_count n"
  shows "\<exists>n'. to_float n = Inr (Finite n') \<and> 1 / 2 ^ 65 \<le> n' \<and> n' \<le> 2 ^ 66"
proof (cases n)
  case (PyInt i)
  have "1 \<le> i" "i \<le> 2 ^ 64"
    using assms by (simp_all add: atom_count_def PyInt)
  then have "(of_int 1 :: rat) \<le> of_int i" "(of_int i :: rat) \<le> of_int (2 ^ 64)"
    by (simp_all only: of_int_le_iff)
  then have i: "1 \<le> (of_int i :: rat)" "(of_int i :: rat) \<le> 2 ^ 64"
    by simp_all
  then have "\<bar>of_int i :: rat\<bar> \<le> 2 ^ 1000"
    by simp
  then have fin: "b64 (of_int i) = Finite (rnd (of_int i))"
    by (rule b64_finite)
  have "of_int i * unit_roundoff \<le> (of_int i :: rat) * (1 / 2)"
    using i by (intro mult_left_mono) (simp_all add: unit_roundoff_def)
  moreover have "tiny \<le> 1 / 4"
    by (simp add: tiny_def)
  moreover have "\<bar>rnd (of_int i) - of_int i\<bar> \<le> of_int i * unit_roundoff + tiny"
    using rnd_error [of "of_int i"] i by simp
  ultimately have "1 / 4 \<le> rnd (of_int i)" "rnd (of_int i) \<le> 2 * 2 ^ 64 + 1"
    using i by linarith+
  then have "1 / 2 ^ 65 \<le> rnd (of_int i)" "rnd (of_int i) \<le> 2 ^ 66"
    by simp_all
  then show ?thesis
    by (simp add: PyInt to_float_def fin)
next
  case (PyFloat f)
  with assms obtain x where f: "f = Finite x" and x: "1 / 2 ^ 64 \<le> x" "x \<le> 2 ^ 64"
    by (cases f) (simp_all add: atom_count_def)
  from x have "1 / 2 ^ 65 \<le> x" "x \<le> 2 ^ 66"
    by simp_all
  then show ?thesis
    by (simp add: PyFloat f to_float_def)
qed

lemma float_round_trip:
  assumes e: "\<bar>e\<bar> \<le> 3000001" and n: "1 / 2 ^ 65 \<le> n" "n \<le> 2 ^ 66"
  shows "\<exists>t r. fmul (Finite e) (Finite n) = Finite t \<and> fdiv (Finite t) (Finite n) = Finite r \<and>
           \<bar>r - e\<bar> \<le> 2 * (3000001 * unit_roundoff) + 3000001 * unit_roundoff * unit_roundoff
                       + tiny * 2 ^ 65 * unit_roundoff + tiny * 2 ^ 65 + tiny"
proof -
  have npos: "0 < n"
    using n(1) by (rule less_le_trans [rotated]) simp
  have inv: "1 / n \<le> 2 ^ 65"
    using n(1) npos by (simp add: field_simps)
  have "\<bar>e * n\<bar> = \<bar>e\<bar> * n"
    using npos by (simp add: abs_mult)
  also have "\<dots> \<le> 3000001 * 2 ^ 66"
    using e n(2) npos by (intro mult_mono) simp_all
  finally have en: "\<bar>e * n\<bar> \<le> 3000001 * 2 ^ 66" .
  then have "\<bar>e * n\<bar> \<le> 2 ^ 1000"
    by (rule order_trans) simp
  then have t: "fmul (Finite e) (Finite n) = Finite (rnd (e * n))"
    by (simp add: b64_finite)
  have tb: "\<bar>rnd (e * n)\<bar> \<le> 2 * (3000001 * 2 ^ 66) + 1"
    using rnd_bound2 [of "e * n"] en by linarith
  have "\<bar>rnd (e * n) / n\<bar> = \<bar>rnd (e * n)\<bar> * (1 / n)"
    using npos by (simp add: abs_of_pos)
  also have "\<dots> \<le> (2 * (3000001 * 2 ^ 66) + 1) * 2 ^ 65"
    using tb inv npos by (intro mult_mono) simp_all
  finally have "\<bar>rnd (e * n) / n\<bar> \<le> (2 * (3000001 * 2 ^ 66) + 1) * 2 ^ 65" .
  then have "\<bar>rnd (e * n) / n\<bar> \<le> 2 ^ 1000"
    by (rule order_trans) simp
  then have r: "fdiv (Finite (rnd (e * n))) (Finite n) = Finite (rnd (rnd (e * n) / n))"
    by (simp add: b64_finite)
  have a: "\<bar>e\<bar> * unit_roundoff \<le> 3000001 * unit_roundoff"
    using e roundoff_nonneg(1) by (intro mult_right_mono)
  have aa: "\<bar>e\<bar> * unit_roundoff * unit_roundoff \<le> 3000001 * unit_roundoff * unit_roundoff"
    using a roundoff_nonneg(1) by (rule mult_right_mono)
  have "tiny / n = tiny * (1 / n)"
    by simp
  also have "\<dots> \<le> tiny * 2 ^ 65"
    using inv roundoff_nonneg(2) by (intro mult_left_mono)
  finally have b: "tiny / n \<le> tiny * 2 ^ 65" .
  have bb: "tiny / n * unit_roundoff \<le> tiny * 2 ^ 65 * unit_roundoff"
    using b roundoff_nonneg(1) by (rule mult_right_mono)
  from round_trip_rat [OF npos, of e] a aa b bb
  have "\<bar>rnd (rnd (e * n) / n) - e\<bar>
          \<le> 2 * (3000001 * unit_roundoff) + 3000001 * unit_roundoff * unit_roundoff
              + tiny * 2 ^ 65 * unit_roundoff + tiny * 2 ^ 65 + tiny"
    by linarith
  with t r show ?thesis
    by blast
qed

lemma mul_b64_float:
  assumes "to_float a = Inr x" and "to_float b = Inr y"
    and "\<forall>i j. a = PyInt i \<longrightarrow> b \<noteq> PyInt j"
  shows "mul_b64 a b = Inr (PyFloat (fmul x y))"
  using assms by (cases a; cases b) simp_all

lemma truediv_b64_float:
  assumes "to_float a = Inr x" and "to_float b = Inr y"
    and "\<forall>i j. a = PyInt i \<longrightarrow> b \<noteq> PyInt j" and "y \<noteq> Finite 0"
  shows "truediv_b64 a b = Inr (PyFloat (fdiv x y))"
  using assms by (cases a; cases b) simp_all

lemma int_quotient:
  assumes "\<bar>of_int i :: rat\<bar> \<le> 3000000" and "0 < j"
  shows "\<exists>p. truediv_b64 (PyInt i) (PyInt j) = Inr (PyFloat (Finite p))"
proof -
  have j: "1 \<le> (of_int j :: rat)"
    using assms(2) by simp
  have "\<bar>of_int i / of_int j :: rat\<bar> = \<bar>of_int i\<bar> / of_int j"
    using j by simp
  also have "\<dots> \<le> \<bar>of_int i\<bar> / 1"
    using j by (intro divide_left_mono) simp_all
  finally have "\<bar>of_int i / of_int j :: rat\<bar> \<le> 3000000"
    using assms(1) by simp
  then have "\<bar>of_int i / of_int j :: rat\<bar> \<le> 2 ^ 1000"
    by (rule order_trans) simp
  then have "b64 (of_int i / of_int j) = Finite (rnd (of_int i / of_int j))"
    by (rule b64_finite)
  with assms(2) show ?thesis
    by simp
qed

lemma energy_pfu_returns:
  assumes "moderate_energy e" and "atom_count k"
  shows "\<exists>pfu. truediv_b64 e k = Inr pfu"
proof (cases "\<exists>i j. e = PyInt i \<and> k = PyInt j")
  case True
  then obtain i j where ij: "e = PyInt i" "k = PyInt j" by blast
  have "\<bar>of_int i :: rat\<bar> \<le> 3000000" and "0 < j"
    using assms by (simp_all add: ij moderate_energy_def num_val_def atom_count_def)
  from int_quotient [OF this] show ?thesis
    unfolding ij by blast
next
  case False
  obtain e' where e': "to_float e = Inr (Finite e')" "\<bar>e'\<bar> \<le> 3000001"
    using energy_to_float [OF assms(1)] by blast
  obtain m where m: "to_float k = Inr (Finite m)" "1 / 2 ^ 65 \<le> m"
    using count_to_float [OF assms(2)] by blast
  have "0 < m"
    using m(2) by (rule less_le_trans [rotated]) simp
  then have "Finite m \<noteq> Finite 0"
    by simp
  with truediv_b64_float [OF e'(1) m(1)] False show ?thesis
    by blast
qed

lemma energy_round_trip:
  assumes en: "moderate_energy e" and n: "atom_count n"
  shows "\<exists>tot r. mul_b64 e n = Inr tot \<and> truediv_b64 tot n = Inr (PyFloat (Finite r)) \<and>
                 \<bar>r - num_val e\<bar> \<le> 1 / 10 ^ 9"
proof -
  obtain e' where e': "to_float e = Inr (Finite e')"
    "\<bar>e' - num_val e\<bar> \<le> 3000000 * unit_roundoff + tiny" "\<bar>e'\<bar> \<le> 3000001"
    using energy_to_float [OF en] by blast
  obtain n' where n': "to_float n = Inr (Finite n')" "1 / 2 ^ 65 \<le> n'" "n' \<le> 2 ^ 66"
    using count_to_float [OF n] by blast
  have rest: "0 \<le> 2 * (3000001 * unit_roundoff) + 3000001 * unit_roundoff * unit_roundoff
                + tiny * 2 ^ 65 * unit_roundoff + tiny * 2 ^ 65 + tiny"
    using roundoff_nonneg by simp
  show ?thesis
  proof (cases "\<exists>i j. e = PyInt i \<and> n = PyInt j")
    case True
    then obtain i j where ij: "e = PyInt i" "n = PyInt j" by blast
    have j: "j \<noteq> 0"
      using n by (simp add: ij atom_count_def)
    have "b64 (of_int i) = Finite e'"
      using e'(1) by (simp add: ij to_float_def split: pyfloat.splits)
    with j have "truediv_b64 (PyInt (i * j)) (PyInt j) = Inr (PyFloat (Finite e'))"
      by simp
    moreover have "\<bar>e' - num_val e\<bar> \<le> 1 / 10 ^ 9"
      using e'(2) rest numeric_bound by linarith
    ultimately show ?thesis
      unfolding ij by (intro exI [of _ "PyInt (i * j)"] exI [of _ e']) simp
  next
    case False
    then have mixed: "\<forall>i j. e = PyInt i \<longrightarrow> n \<noteq> PyInt j"
      by blast
    obtain t r where t: "fmul (Finite e') (Finite n') = Finite t"
      and r: "fdiv (Finite t) (Finite n') = Finite r"
      and err: "\<bar>r - e'\<bar> \<le> 2 * (3000001 * unit_roundoff) + 3000001 * unit_roundoff * unit_roundoff
                       + tiny * 2 ^ 65 * unit_roundoff + tiny * 2 ^ 65 + tiny"
      using float_round_trip [OF e'(3) n'(2,3)] by blast
    have "0 < n'"
      using n'(2) by (rule less_le_trans [rotated]) simp
    then have nz: "Finite n' \<noteq> Finite 0"
      by simp
    have tot: "mul_b64 e n = Inr (PyFloat (Finite t))"
      using mul_b64_float [OF e'(1) n'(1) mixed] by (simp only: t)
    have "to_float (PyFloat (Finite t)) = Inr (Finite t)"
      by (simp add: to_float_def)
    from truediv_b64_float [OF this n'(1) _ nz]
    have again: "truediv_b64 (PyFloat (Finite t)) n = Inr (PyFloat (Finite r))"
      by (simp only: r pynum.distinct simp_thms)
    have "\<bar>r - num_val e\<bar> \<le> 1 / 10 ^ 9"
      using err e'(2) numeric_bound by linarith
    with tot again show ?thesis
      by blast
  qed
qed

text \<open>
  The setter evaluated: \<open>Phase({'Fe': 1, 'O': 2}, -0.1)\<close> gets
  \<open>total_energy = -0.30000000000000004\<close>, and dividing by 3 gives
  \<open>-0.10000000000000002\<close>, one unit in the last place from the energy. An \<open>int\<close> energy
  of \<open>10 ** 309\<close> passes line 270 (the product of two \<open>int\<close> values) and raises
  \<open>OverflowError\<close> in the division of line 271.
\<close>

lemma rnd_examples:
  "rnd 3 = 3"
  "rnd (60000001 / 5) = 6442451051374182 / 2 ^ 29"
  "rnd (6442451051374182 / 2 ^ 29 * 3) = 4831838288530636 / 2 ^ 27"
  "rnd (4831838288530636 / 2 ^ 27 / 3) = 6442451051374181 / 2 ^ 29"
  "rnd (6442451051374182 / 2 ^ 29 / 3) = 1073741841895697 / 2 ^ 28"
  "rnd (- (3602879701896397 / 2 ^ 55) * 3) = - (1351079888211149 / 2 ^ 52)"
  "rnd (- (1351079888211149 / 2 ^ 52) / 3) = - (7205759403792795 / 2 ^ 56)"
  "rnd (- (3602879701896397 / 2 ^ 55) / 3) = - (4803839602528529 / 2 ^ 57)"
  by code_simp+

lemma set_energy_b64_example:
  "set_energy_b64 (PyInt 3) (PyInt 3) (PyFloat (Finite (- (3602879701896397 / 2 ^ 55)))) =
     Inr \<lparr>energy_view = PyFloat (Finite (- (3602879701896397 / 2 ^ 55))),
          total_energy_view = PyFloat (Finite (- (1351079888211149 / 2 ^ 52))),
          energy_pfu_view = PyFloat (Finite (- (4803839602528529 / 2 ^ 57)))\<rparr> \<and>
   truediv_b64 (PyFloat (Finite (- (1351079888211149 / 2 ^ 52)))) (PyInt 3) =
     Inr (PyFloat (Finite (- (7205759403792795 / 2 ^ 56))))"
  using rnd_examples by (simp add: set_energy_b64_def to_float_def b64_def)

lemma b64_overflow:
  assumes "2 ^ 1024 + 1 \<le> x * 3 / 4"
  shows "b64 x = Infinite True"
proof -
  have "(0::rat) \<le> 2 ^ 1024"
    by simp
  with assms have pos: "0 \<le> x"
    by linarith
  have "\<bar>x\<bar> * unit_roundoff \<le> \<bar>x\<bar> * (1 / 4)"
    by (intro mult_left_mono) (simp_all add: unit_roundoff_def)
  with rnd_error [of x] roundoff_le_1(2) pos have "x * 3 / 4 - 1 \<le> rnd x"
    by (simp add: abs_if split: if_splits)
  with assms have "2 ^ 1024 \<le> rnd x"
    by linarith
  then show ?thesis
    by (simp add: b64_def Let_def abs_if)
qed

lemma set_energy_b64_overflow:
  "set_energy_b64 (PyInt 3) (PyInt 3) (PyInt (10 ^ 309)) = Inl OverflowError"
proof -
  have "b64 (of_int (10 ^ 309) / of_int 3) = Infinite True"
    by (rule b64_overflow) simp
  then show ?thesis
    by (simp add: set_energy_b64_def)
qed

text \<open>
  Counterexample to C9 as stated. \<open>Phase({'Fe': 1, 'O': 2}, 12000000.2, per_atom=True)\<close>:
  the literal is the \<open>float\<close> \<open>6442451051374182 / 2 ^ 29\<close>, the setter stores
  \<open>total_energy = 4831838288530636 / 2 ^ 27\<close>, and \<open>total_energy / 3\<close> is
  \<open>6442451051374181 / 2 ^ 29\<close>: it differs from the energy by \<open>2 ^ -29\<close>, which is more
  than \<open>1e-9\<close>.
\<close>

theorem round_trip_counterexample:
  "b64 (60000001 / 5) = Finite (6442451051374182 / 2 ^ 29) \<and>
   set_energy_b64 (PyInt 3) (PyInt 3) (PyFloat (Finite (6442451051374182 / 2 ^ 29))) =
     Inr \<lparr>energy_view = PyFloat (Finite (6442451051374182 / 2 ^ 29)),
          total_energy_view = PyFloat (Finite (4831838288530636 / 2 ^ 27)),
          energy_pfu_view = PyFloat (Finite (1073741841895697 / 2 ^ 28))\<rparr> \<and>
   truediv_b64 (PyFloat (Finite (4831838288530636 / 2 ^ 27))) (PyInt 3) =
     Inr (PyFloat (Finite (6442451051374181 / 2 ^ 29))) \<and>
   \<not> \<bar>num_val (PyFloat (Finite (6442451051374181 / 2 ^ 29)))
        - num_val (PyFloat (Finite (6442451051374182 / 2 ^ 29)))\<bar> \<le> 1 / 10 ^ 9"
  using rnd_examples by (simp add: set_energy_b64_def to_float_def b64_def num_val_def)

text \<open>
  Claim C9, amended. For every energy \<open>e\<close> that is an \<open>int\<close> or a finite \<open>float\<close> with
  \<open>|e| \<le> 3 * 10 ^ 6\<close>, and atom counts \<open>sum(comp.values())\<close> and
  \<open>sum(nom_comp.values())\<close> that are an \<open>int\<close> from 1 to \<open>2 ^ 64\<close> or a \<open>float\<close> from
  \<open>2 ^ -64\<close> to \<open>2 ^ 64\<close>, the assignment \<open>self.energy = e\<close> that ends
  \<open>Phase(comp, e, per_atom=True)\<close> returns, \<open>energy\<close> is \<open>e\<close>, and
  \<open>total_energy / sum(comp.values())\<close> is a finite \<open>float\<close> within \<open>1e-9\<close> of \<open>e\<close>, in
  binary64 arithmetic.
\<close>

theorem per_atom_energy_round_trip:
  assumes "moderate_energy e" and "atom_count n_atoms" and "atom_count n_nominal"
  shows "\<exists>v r. set_energy_b64 n_atoms n_nominal e = Inr v \<and> energy_view v = e \<and>
               truediv_b64 (total_energy_view v) n_atoms = Inr (PyFloat (Finite r)) \<and>
               \<bar>r - num_val e\<bar> \<le> 1 / 10 ^ 9"
proof -
  obtain tot r where tot: "mul_b64 e n_atoms = Inr tot"
    and again: "truediv_b64 tot n_atoms = Inr (PyFloat (Finite r))"
    and err: "\<bar>r - num_val e\<bar> \<le> 1 / 10 ^ 9"
    using energy_round_trip [OF assms(1,2)] by blast
  obtain pfu where pfu: "truediv_b64 e n_nominal = Inr pfu"
    using energy_pfu_returns [OF assms(1,3)] by blast
  show ?thesis
    using again err
    by (intro exI [of _ "\<lparr>energy_view = e, total_energy_view = tot, energy_pfu_view = pfu\<rparr>"]
        exI [of _ r]) (simp add: set_energy_b64_def tot pfu)
qed

theorem per_atom_energy_round_trip_witness:
  "moderate_energy (PyFloat (Finite (- (3602879701896397 / 2 ^ 55)))) \<and>
   atom_count (PyInt 3) \<and>
   (\<exists>v r. set_energy_b64 (PyInt 3) (PyInt 3) (PyFloat (Finite (- (3602879701896397 / 2 ^ 55))))
             = Inr v \<and>
          energy_view v = PyFloat (Finite (- (3602879701896397 / 2 ^ 55))) \<and>
          truediv_b64 (total_energy_view v) (PyInt 3) = Inr (PyFloat (Finite r)) \<and>
          \<bar>r - num_val (PyFloat (Finite (- (3602879701896397 / 2 ^ 55))))\<bar> \<le> 1 / 10 ^ 9)"
  using per_atom_energy_round_trip
      [of "PyFloat (Finite (- (3602879701896397 / 2 ^ 55)))" "PyInt 3" "PyInt 3"]
  by (simp add: moderate_energy_def finite_num_def num_val_def atom_count_def)

section \<open>Equality of phases\<close>

lemma dget_map_of: "dget d k = (case map_of d k of None \<Rightarrow> 0 | Some v \<Rightarrow> v)"
  by (simp add: dget_def dd_getitem_def split: option.splits)

lemma getitem_present: "k \<in> set (dict_keys d) \<Longrightarrow> getitem d k = Inr (dget d k)"
  by (auto simp: getitem_def dget_map_of dict_keys_def map_of_eq_None_iff split: option.splits)

lemma eq_loop_present:
  "\<forall>k \<in> set ks. k \<in> set (dict_keys (unit_comp_attr self)) \<and> k \<in> set (dict_keys (unit_comp_attr other)) \<Longrightarrow>
   eq_loop ks self other =
     Inr (\<forall>k \<in> set ks. \<bar>dget (unit_comp_attr self) k - dget (unit_comp_attr other) k\<bar> \<le> 1 / 1000000)"
  by (induction ks) (auto simp: getitem_present)

lemma eq_loop_covered:
  assumes "unit_comp_covers p" and "unit_comp_covers q"
    and "set (dict_keys (comp_attr p)) = set (dict_keys (comp_attr q))"
  shows "eq_loop (dict_keys (comp_attr p)) p q =
     Inr (\<forall>k \<in> set (dict_keys (comp_attr p)).
            \<bar>dget (unit_comp_attr p) k - dget (unit_comp_attr q) k\<bar> \<le> 1 / 1000000)"
proof -
  have "\<forall>k \<in> set (dict_keys (comp_attr p)).
          k \<in> set (dict_keys (unit_comp_attr p)) \<and> k \<in> set (dict_keys (unit_comp_attr q))"
    using assms unfolding unit_comp_covers_def by blast
  then show ?thesis by (rule eq_loop_present)
qed

lemma set_comp_keys:
  "set_comp p c = Inr p' \<Longrightarrow> dict_keys (unit_comp_attr p') = dict_keys (comp_attr p')"
  by (auto simp: set_comp_def unit_comp_def upd_defs dict_keys_def Let_def case_prod_unfold
      split: sum.splits if_splits)

lemma Phase_init_unit_comp_keys:
  assumes "Phase_init env cmp en descr per_atom stab tot nm = Inr p"
  shows "dict_keys (unit_comp_attr p) = dict_keys (comp_attr p)"
  using assms
  by (auto simp: Phase_init_def set_total_energy_def set_energy_def Let_def upd_defs
      split: option.splits sum.splits if_splits composition.splits dest!: set_comp_keys)

lemma Phase_init_covers:
  "Phase_init env cmp en descr per_atom stab tot nm = Inr p \<Longrightarrow> unit_comp_covers p"
  by (simp add: unit_comp_covers_def Phase_init_unit_comp_keys)

text \<open>
  Counterexample to C3 as stated. \<open>Phase({'Fe': 1, 'O': 0}, -1)\<close> and
  \<open>Phase({'Fe': 1}, -1)\<close> have the same elements with a nonzero amount, the same energy
  and the same unit fraction of \<open>Fe\<close>, but \<open>==\<close> is \<open>False\<close>: line 195 compares the
  key sets \<open>{'Fe', 'O'}\<close> and \<open>{'Fe'}\<close>.
\<close>

theorem Phase_eq_counterexample:
  "Phase_eq phase_Fe_O0 phase_Fe_low = Inr False \<and> equal_as_stated phase_Fe_O0 phase_Fe_low"
  by (auto simp: Phase_eq_def equal_as_stated_def support_def dict_keys_def dget_map_of
      phase_Fe_O0_def phase_Fe_low_def)

text \<open>
  Claim C3, amended. For two phases whose unit composition has every key of their
  composition (as the constructor leaves them, lemma \<open>Phase_init_covers\<close>),
  \<open>p == q\<close> holds if and only if \<open>p.comp\<close> and \<open>q.comp\<close> have the same set of keys,
  whatever the amounts, \<open>|p.energy - q.energy| <= 1e-6\<close>, and
  \<open>|p.unit_comp[k] - q.unit_comp[k]| <= 1e-6\<close> for every key \<open>k\<close> of \<open>p.comp\<close>.
\<close>

theorem Phase_eq_iff:
  assumes "unit_comp_covers p" and "unit_comp_covers q"
  shows "Phase_eq p q =
     Inr (set (dict_keys (comp_attr p)) = set (dict_keys (comp_attr q)) \<and>
          \<bar>energy p - energy q\<bar> \<le> 1 / 1000000 \<and>
          (\<forall>k \<in> set (dict_keys (comp_attr p)).
             \<bar>dget (unit_comp_attr p) k - dget (unit_comp_attr q) k\<bar> \<le> 1 / 1000000))"
proof (cases "set (dict_keys (comp_attr p)) = set (dict_keys (comp_attr q))")
  case False
  then show ?thesis by (simp add: Phase_eq_def)
next
  case True
  from eq_loop_covered [OF assms True] True show ?thesis
    by (simp add: Phase_eq_def not_less)
qed

theorem Phase_eq_iff_witness:
  "unit_comp_covers phase_Fe2O3_a \<and> unit_comp_covers phase_Fe2O3_b \<and>
   Phase_eq phase_Fe2O3_a phase_Fe2O3_a = Inr True \<and>
   Phase_eq phase_Fe2O3_a phase_Fe2O3_b = Inr False"
proof -
  have a: "unit_comp_covers phase_Fe2O3_a" and b: "unit_comp_covers phase_Fe2O3_b"
    by (simp_all add: unit_comp_covers_def phase_Fe2O3_a_def phase_Fe2O3_b_def dict_keys_def)
  have e: "energy phase_Fe2O3_a = - 3" "energy phase_Fe2O3_b = - 5"
    by (simp_all add: phase_Fe2O3_a_def phase_Fe2O3_b_def)
  show ?thesis
    using Phase_eq_iff [OF a a] Phase_eq_iff [OF a b] a b by (simp add: e)
qed

text \<open>\<open>==\<close> returns on two such phases.\<close>

lemma Phase_eq_returns:
  assumes "unit_comp_covers p" and "unit_comp_covers q"
  shows "\<exists>b. Phase_eq p q = Inr b"
proof (cases "set (dict_keys (comp_attr p)) = set (dict_keys (comp_attr q))")
  case False
  then have "Phase_eq p q = Inr False" by (simp add: Phase_eq_def)
  then show ?thesis by blast
next
  case True
  from eq_loop_covered [OF assms True] True
  have "Phase_eq p q = Inr False \<or> (\<exists>b. Phase_eq p q = Inr b)"
    by (simp add: Phase_eq_def)
  then show ?thesis by blast
qed

section \<open>\<open>from_phases\<close>\<close>

text \<open>
  Claim C6 fails on the code. For a mapping with exactly one entry line 155 evaluates
  \<open>phase_dict.keys()[0]\<close>, which raises \<open>TypeError\<close> under Python 3; the constituent
  phase is not returned.
\<close>

theorem from_phases_single_entry: "from_phases env [(p, a)] = Inl TypeError"
  by (simp add: from_phases_def)

section \<open>\<open>amt\<close> and \<open>fraction\<close>\<close>

text \<open>Reading and assigning keys of a dictionary.\<close>

lemma dget_Nil [simp]: "dget [] k = 0"
  by (simp add: dget_map_of)

lemma dget_Cons [simp]: "dget ((k', v) # d) k = (if k = k' then v else dget d k)"
  by (simp add: dget_map_of)












text \<open>Neither loop touches an address other than that of the residual.\<close>

lemma inner_loop_frame:
  "length (inner_loop st r pres items) = length st \<and>
   (\<forall>a. a \<noteq> r \<longrightarrow> inner_loop st r pres items ! a = st ! a)"
  by (induction items arbitrary: st) (auto simp: case_prod_unfold)

lemma outer_loop_frame:
  "outer_loop st r t items = Inr st' \<Longrightarrow>
   length st' = length st \<and> (\<forall>a. a \<noteq> r \<longrightarrow> st' ! a = st ! a)"
proof (induction items arbitrary: st)
  case Nil
  then show ?case by simp
next
  case (Cons item items)
  obtain c amt where item: "item = (c, amt)" by (cases item)
  define st1 where "st1 = st[r := snd (dd_getitem (st ! r) c)]"
  from Cons.prems obtain pres where
    run: "outer_loop (inner_loop st1 r pres (st1 ! t)) r t items = Inr st'"
    by (auto simp: item st1_def case_prod_unfold Let_def split: sum.splits)
  have "length st1 = length st" "\<forall>a. a \<noteq> r \<longrightarrow> st1 ! a = st ! a"
    by (simp_all add: st1_def)
  with Cons.IH [OF run] inner_loop_frame [of st1 r pres "st1 ! t"] show ?case
    by simp
qed

text \<open>The outer loop divides by every amount of the target.\<close>

lemma outer_loop_zero_amount:
  "(k, 0) \<in> set items \<Longrightarrow> outer_loop st r t items = Inl ZeroDivisionError"
proof (induction items arbitrary: st)
  case Nil
  then show ?case by simp
next
  case (Cons item items)
  obtain c amt where item: "item = (c, amt)" by (cases item)
  show ?case
  proof (cases "amt = 0")
    case True
    then show ?thesis
      by (simp add: item py_div_def case_prod_unfold)
  next
    case False
    with Cons.prems have "(k, 0) \<in> set items"
      by (auto simp: item)
    from Cons.IH [OF this] False show ?thesis
      by (simp add: item py_div_def case_prod_unfold Let_def)
  qed
qed






lemma pull_out_frame:
  assumes "pull_out st src cmp = Inr (r, st')"
  shows "r = length st \<and> length st' = Suc (length st) \<and> take (length st) st' = st"
proof -
  define st1 where "st1 = st @ [st ! src]"
  from assms obtain st2 d3 where
    loop: "outer_loop st1 (length st) cmp (st1 ! cmp) = Inr st2"
    and res: "r = length st" "st' = st2[length st := d3]"
    by (auto simp: pull_out_def alloc_def st1_def Let_def case_prod_unfold split: sum.splits)
  have len: "length st2 = Suc (length st)"
    and same: "\<forall>a. a \<noteq> length st \<longrightarrow> st2 ! a = st1 ! a"
    using outer_loop_frame [OF loop] by (simp_all add: st1_def)
  have "take (length st) st2 = st"
    using len same by (simp add: list_eq_iff_nth_eq st1_def nth_append)
  then show ?thesis
    using res len by simp
qed

lemma pull_out_zero_amount:
  assumes "(k, 0) \<in> set (st ! cmp)" and "cmp < length st"
  shows "pull_out st src cmp = Inl ZeroDivisionError"
proof -
  have "(st @ [st ! src]) ! cmp = st ! cmp"
    using assms(2) by (simp add: nth_append)
  with outer_loop_zero_amount [OF assms(1)] show ?thesis
    by (simp add: pull_out_def alloc_def Let_def)
qed



text \<open>
  The examples of the docstrings: \<open>amt\<close> with the target \<open>{'O': 1, 'Li': 2}\<close> gives
  \<open>'var': 2.5\<close>, \<open>fraction\<close> gives \<open>'var': 15/28 = 0.5357...\<close>; with the keys in the
  order \<open>Li\<close>, \<open>O\<close> the same target gives \<open>'var': 8\<close>.
\<close>

lemma store_with_example:
  "store_with phase_FeLi5O8 t =
     [[(''Fe'', 1), (''Li'', 5), (''O'', 8)], [(''Fe'', 1 / 14), (''Li'', 5 / 14), (''O'', 4 / 7)],
      [(''Fe'', 1), (''Li'', 5), (''O'', 8)], t]"
  "store_with phase_Fe_var t =
     [[(''Fe'', 1), (''var'', 5)], [(''Fe'', 1 / 6), (''var'', 5 / 6)], [(''Fe'', 1), (''var'', 5)], t]"
  by (simp_all add: store_with_def store_phase_def phase_FeLi5O8_def phase_Fe_var_def)

lemma amt_examples:
  "amt env (store_with phase_FeLi5O8 [(''Li'', 2), (''O'', 1)]) self_ref (TgtMap 3) =
     Inr (4, store_with phase_FeLi5O8 [(''Li'', 2), (''O'', 1)]
               @ [[(''Fe'', 1), (''Li'', - 11), (''O'', 0), (''var'', 8)]])"
  "amt env (store_with phase_FeLi5O8 [(''O'', 1), (''Li'', 2)]) self_ref (TgtMap 3) =
     Inr (4, store_with phase_FeLi5O8 [(''O'', 1), (''Li'', 2)]
               @ [[(''Fe'', 1), (''Li'', 0), (''O'', 11 / 2), (''var'', 5 / 2)]])"
  "fraction env (store_with phase_FeLi5O8 [(''O'', 1 / 3), (''Li'', 2 / 3)]) self_ref (TgtMap 3) =
     Inr (4, store_with phase_FeLi5O8 [(''O'', 1 / 3), (''Li'', 2 / 3)]
               @ [[(''Fe'', 1 / 14), (''Li'', 0), (''O'', 11 / 28), (''var'', 15 / 28)]])"
  "amt env (store_with phase_Fe_var [(''Fe'', 1)]) self_ref (TgtMap 3) =
     Inr (4, store_with phase_Fe_var [(''Fe'', 1)] @ [[(''Fe'', 0), (''var'', 1)]])"
  "amt env (store_with phase_FeLi5O8 []) self_ref (TgtMap 3) = Inl ZeroDivisionError"
  "amt env (store_with phase_FeLi5O8 [(''Li'', 2), (''O'', 0)]) self_ref (TgtMap 3)
     = Inl ZeroDivisionError"
  "fraction env (store_with phase_FeLi5O8 [(''Li'', 2), (''O'', 0)]) self_ref (TgtMap 3)
     = Inl ZeroDivisionError"
  unfolding store_with_example amt_def fraction_def self_ref_def by code_simp+

text \<open>A target given as a string, after parsing.\<close>

lemma unit_comp_zero_amount:
  assumes "(k, 0) \<in> set m"
  shows "unit_comp m = Inl ZeroDivisionError \<or> (\<exists>u. unit_comp m = Inr u \<and> (k, 0) \<in> set u)"
proof (cases "sum_values m = 0")
  case True
  with assms show ?thesis
    by (auto simp: unit_comp_def)
next
  case False
  have "(k, 0 / sum_values m) \<in> (\<lambda>(k, v). (k, v / sum_values m)) ` set m"
    using assms by (rule rev_image_eqI) simp
  with False show ?thesis
    by (simp add: unit_comp_def)
qed

lemma str_target_zero_amount:
  assumes "parse_comp env s = Inr m" and "(k, 0) \<in> set m"
  shows "amt env st self (TgtStr s) = Inl ZeroDivisionError \<and>
         fraction env st self (TgtStr s) = Inl ZeroDivisionError"
proof -
  have a: "amt env st self (TgtStr s) = Inl ZeroDivisionError"
    using pull_out_zero_amount [of k "st @ [m]" "length st"] assms
    by (simp add: amt_def alloc_def)
  from unit_comp_zero_amount [OF assms(2)]
  have "fraction env st self (TgtStr s) = Inl ZeroDivisionError"
  proof
    assume "unit_comp m = Inl ZeroDivisionError"
    with assms show ?thesis by (simp add: fraction_def)
  next
    assume "\<exists>u. unit_comp m = Inr u \<and> (k, 0) \<in> set u"
    then obtain u where u: "unit_comp m = Inr u" "(k, 0) \<in> set u" by blast
    with pull_out_zero_amount [of k "st @ [u]" "length st"] assms show ?thesis
      by (simp add: fraction_def alloc_def)
  qed
  with a show ?thesis by simp
qed

text \<open>
  Claim C7. If the target composition has a key whose amount is zero, \<open>amt\<close> and
  \<open>fraction\<close> end with \<open>ZeroDivisionError\<close>, which nothing in either method catches:
  for a target mapping, for a target phase through its \<open>comp\<close> and \<open>unit_comp\<close>, and
  for a target string through the mapping that the parser returns.
\<close>

theorem zero_amount_raises:
  "(cmp < length st \<and> (k, 0) \<in> set (st ! cmp) \<longrightarrow>
      amt env st self (TgtMap cmp) = Inl ZeroDivisionError \<and>
      fraction env st self (TgtMap cmp) = Inl ZeroDivisionError) \<and>
   (comp_at q < length st \<and> (k, 0) \<in> set (st ! comp_at q) \<longrightarrow>
      amt env st self (TgtPhase q) = Inl ZeroDivisionError) \<and>
   (unit_comp_at q < length st \<and> (k, 0) \<in> set (st ! unit_comp_at q) \<longrightarrow>
      fraction env st self (TgtPhase q) = Inl ZeroDivisionError) \<and>
   (parse_comp env s = Inr m \<and> (k, 0) \<in> set m \<longrightarrow>
      amt env st self (TgtStr s) = Inl ZeroDivisionError \<and>
      fraction env st self (TgtStr s) = Inl ZeroDivisionError)"
  using str_target_zero_amount [of env s m k st self]
  by (auto simp: amt_def fraction_def intro: pull_out_zero_amount)

theorem zero_amount_raises_witness:
  "(3::nat) < length (store_with phase_FeLi5O8 [(''Li'', 2), (''O'', 0)]) \<and>
   (''O'', 0) \<in> set (store_with phase_FeLi5O8 [(''Li'', 2), (''O'', 0)] ! 3) \<and>
   amt sample_env (store_with phase_FeLi5O8 [(''Li'', 2), (''O'', 0)]) self_ref (TgtMap 3)
     = Inl ZeroDivisionError \<and>
   fraction sample_env (store_with phase_FeLi5O8 [(''Li'', 2), (''O'', 0)]) self_ref (TgtMap 3)
     = Inl ZeroDivisionError"
proof -
  have h: "(3::nat) < length (store_with phase_FeLi5O8 [(''Li'', 2), (''O'', 0)]) \<and>
      (''O'', 0) \<in> set (store_with phase_FeLi5O8 [(''Li'', 2), (''O'', 0)] ! 3)"
    by (simp add: store_with_example numeral_eq_Suc)
  with zero_amount_raises [of 3 "store_with phase_FeLi5O8 [(''Li'', 2), (''O'', 0)]" "''O''"
      sample_env self_ref]
  show ?thesis by blast
qed

text \<open>
  Claim C10. When \<open>amt\<close> or \<open>fraction\<close> returns, every dictionary that existed before
  the call is what it was: the store after the call begins with the store before it, and
  the result is an object that did not exist before. So \<open>p.comp\<close>, \<open>p.unit_comp\<close>,
  \<open>p.nom_comp\<close> and the target are unchanged, also when the target is one of the
  dictionaries of \<open>p\<close>; \<open>p.energy\<close> is an attribute, and the methods assign none.
\<close>

theorem amt_fraction_frame:
  "(amt env st self tgt = Inr (r, st') \<longrightarrow>
      take (length st) st' = st \<and> length st \<le> r \<and> r < length st') \<and>
   (fraction env st self tgt = Inr (r, st') \<longrightarrow>
      take (length st) st' = st \<and> length st \<le> r \<and> r < length st')"
proof -
  have frame: "take (length st) st' = st \<and> length st \<le> r \<and> r < length st'"
    if "pull_out (st @ new) src cmp = Inr (r, st')" for new src cmp
  proof -
    from pull_out_frame [OF that]
    have r: "r = length st + length new" and len: "length st' = Suc (length st + length new)"
      and old: "take (length st + length new) st' = st @ new"
      by simp_all
    have "take (length st) st' = take (length st) (take (length st + length new) st')"
      by simp
    also have "\<dots> = st"
      by (simp only: old) simp
    finally show ?thesis
      using r len by simp
  qed
  have a: "take (length st) st' = st \<and> length st \<le> r \<and> r < length st'"
    if "amt env st self tgt = Inr (r, st')"
    using that frame [of "[]"] frame [of "[m]" for m]
    by (auto simp: amt_def alloc_def split: target.splits sum.splits)
  have f: "take (length st) st' = st \<and> length st \<le> r \<and> r < length st'"
    if "fraction env st self tgt = Inr (r, st')"
    using that frame [of "[]"] frame [of "[m]" for m]
    by (auto simp: fraction_def alloc_def split: target.splits sum.splits)
  show ?thesis
    using a f by blast
qed

theorem amt_fraction_frame_witness:
  "amt sample_env (store_with phase_FeLi5O8 [(''Li'', 2), (''O'', 1)]) self_ref (TgtMap 3) =
     Inr (4, store_with phase_FeLi5O8 [(''Li'', 2), (''O'', 1)]
               @ [[(''Fe'', 1), (''Li'', - 11), (''O'', 0), (''var'', 8)]]) \<and>
   take (length (store_with phase_FeLi5O8 [(''Li'', 2), (''O'', 1)]))
     (store_with phase_FeLi5O8 [(''Li'', 2), (''O'', 1)]
        @ [[(''Fe'', 1), (''Li'', - 11), (''O'', 0), (''var'', 8)]])
     = store_with phase_FeLi5O8 [(''Li'', 2), (''O'', 1)] \<and>
   fraction sample_env (store_with phase_FeLi5O8 [(''O'', 1 / 3), (''Li'', 2 / 3)]) self_ref
       (TgtMap 3) =
     Inr (4, store_with phase_FeLi5O8 [(''O'', 1 / 3), (''Li'', 2 / 3)]
               @ [[(''Fe'', 1 / 14), (''Li'', 0), (''O'', 11 / 28), (''var'', 15 / 28)]]) \<and>
   take (length (store_with phase_FeLi5O8 [(''O'', 1 / 3), (''Li'', 2 / 3)]))
     (store_with phase_FeLi5O8 [(''O'', 1 / 3), (''Li'', 2 / 3)]
        @ [[(''Fe'', 1 / 14), (''Li'', 0), (''O'', 11 / 28), (''var'', 15 / 28)]])
     = store_with phase_FeLi5O8 [(''O'', 1 / 3), (''Li'', 2 / 3)]"
  using amt_fraction_frame [of sample_env "store_with phase_FeLi5O8 [(''Li'', 2), (''O'', 1)]"
      self_ref "TgtMap 3" 4
      "store_with phase_FeLi5O8 [(''Li'', 2), (''O'', 1)]
         @ [[(''Fe'', 1), (''Li'', - 11), (''O'', 0), (''var'', 8)]]"]
    amt_fraction_frame [of sample_env "store_with phase_FeLi5O8 [(''O'', 1 / 3), (''Li'', 2 / 3)]"
      self_ref "TgtMap 3" 4
      "store_with phase_FeLi5O8 [(''O'', 1 / 3), (''Li'', 2 / 3)]
         @ [[(''Fe'', 1 / 14), (''Li'', 0), (''O'', 11 / 28), (''var'', 15 / 28)]]"]
  by (simp add: amt_examples)




section \<open>PhaseData: the list and the dictionary\<close>

text \<open>The \<open>index\<close> of a phase is read by none of the operations of the container.\<close>

lemma upd_index_sel [simp]:
  "energy (upd_index i p) = energy p"
  "comp_attr (upd_index i p) = comp_attr p"
  "unit_comp_attr (upd_index i p) = unit_comp_attr p"
  by (simp_all add: upd_index_def)

lemma name_upd_index [simp]: "name env (upd_index i p) = name env p"
  by (cases p) (simp add: upd_index_def)

lemma hash_upd_index [simp]: "Phase_hash env (upd_index i p) = Phase_hash env p"
  by (simp add: Phase_hash_def split: sum.splits)

lemma indexed_Nil [simp]: "indexed [] = []"
  by (simp add: indexed_def)

lemma indexed_snoc: "indexed (ps @ [p]) = indexed ps @ [upd_index (Some (Suc (length ps))) p]"
  by (simp add: indexed_def enumerate_append_eq)

lemma length_indexed [simp]: "length (indexed ps) = length ps"
  by (simp add: indexed_def)

lemma nth_indexed: "i < length ps \<Longrightarrow> indexed ps ! i = upd_index (Some (Suc i)) (ps ! i)"
  by (simp add: indexed_def nth_enumerate_eq)

lemma add_phases_snoc:
  "add_phases env self (ps @ [p]) =
     (case add_phases env self ps of Inl err \<Rightarrow> Inl err | Inr self1 \<Rightarrow> add_phase env self1 p)"
  by (induction ps arbitrary: self) (simp_all split: sum.splits)

text \<open>What one call of \<open>add_phase\<close> does to the list and to the dictionary.\<close>

lemma add_phase_list_dict:
  assumes "add_phase env self p = Inr self1"
  shows "\<exists>nm. name env p = Inr nm \<and>
     phases self1 = phases self @ [upd_index (Some (Suc (length (phases self)))) p] \<and>
     phase_dict_by_name self1 =
       (case phase_dict_by_name self nm of
          None \<Rightarrow> (phase_dict_by_name self)(nm \<mapsto> upd_index (Some (Suc (length (phases self)))) p)
        | Some old \<Rightarrow>
            if energy p < energy old
            then (phase_dict_by_name self)(nm \<mapsto> upd_index (Some (Suc (length (phases self)))) p)
            else phase_dict_by_name self)"
  using assms by (auto simp: add_phase_def Let_def split: sum.splits option.splits)

text \<open>How the first phase of lowest energy moves when one more phase is added.\<close>

lemma lowest_first_other_name:
  "lowest_first env ps nm i \<Longrightarrow> name env p \<noteq> Inr nm \<Longrightarrow> lowest_first env (ps @ [p]) nm i"
  by (auto simp: lowest_first_def nth_append less_Suc_eq)

lemma lowest_first_kept:
  "lowest_first env ps nm i \<Longrightarrow> \<not> energy p < energy (ps ! i) \<Longrightarrow>
   lowest_first env (ps @ [p]) nm i"
  by (auto simp: lowest_first_def nth_append less_Suc_eq)

lemma lowest_first_replaced:
  "lowest_first env ps nm i \<Longrightarrow> name env p = Inr nm \<Longrightarrow> energy p < energy (ps ! i) \<Longrightarrow>
   lowest_first env (ps @ [p]) nm (length ps)"
  by (fastforce simp: lowest_first_def nth_append less_Suc_eq)

lemma lowest_first_new_name:
  "\<forall>j < length ps. name env (ps ! j) \<noteq> Inr nm \<Longrightarrow> name env p = Inr nm \<Longrightarrow>
   lowest_first env (ps @ [p]) nm (length ps)"
  by (auto simp: lowest_first_def nth_append less_Suc_eq)

lemma nth_indexed_snoc:
  "i < length ps \<Longrightarrow> indexed (ps @ [p]) ! i = indexed ps ! i"
  "indexed (ps @ [p]) ! length ps = upd_index (Some (Suc (length ps))) p"
  by (simp_all add: indexed_snoc nth_append)

lemma dict_holds_lowest_step:
  assumes inv: "dict_holds_lowest env ps (phase_dict_by_name self)"
    and ph: "phases self = indexed ps"
    and add: "add_phase env self p = Inr self1"
  shows "dict_holds_lowest env (ps @ [p]) (phase_dict_by_name self1) \<and>
         phases self1 = indexed (ps @ [p]) \<and> (\<exists>nm. name env p = Inr nm)"
proof -
  let ?p' = "upd_index (Some (Suc (length ps))) p"
  obtain nm where nm: "name env p = Inr nm"
    and list: "phases self1 = phases self @ [upd_index (Some (Suc (length (phases self)))) p]"
    and dict: "phase_dict_by_name self1 =
       (case phase_dict_by_name self nm of
          None \<Rightarrow> (phase_dict_by_name self)(nm \<mapsto> upd_index (Some (Suc (length (phases self)))) p)
        | Some old \<Rightarrow>
            if energy p < energy old
            then (phase_dict_by_name self)(nm \<mapsto> upd_index (Some (Suc (length (phases self)))) p)
            else phase_dict_by_name self)"
    using add_phase_list_dict [OF add] by blast
  have list': "phases self1 = indexed (ps @ [p])"
    by (simp add: list ph indexed_snoc)
  have inv_at: "case phase_dict_by_name self k of
                  None \<Rightarrow> (\<forall>j < length ps. name env (ps ! j) \<noteq> Inr k)
                | Some q \<Rightarrow> (\<exists>i. lowest_first env ps k i \<and> q = indexed ps ! i)" for k
    using inv by (simp add: dict_holds_lowest_def)
  have entry: "case phase_dict_by_name self1 k of
                 None \<Rightarrow> (\<forall>j < length (ps @ [p]). name env ((ps @ [p]) ! j) \<noteq> Inr k)
               | Some q \<Rightarrow> (\<exists>i. lowest_first env (ps @ [p]) k i \<and> q = indexed (ps @ [p]) ! i)"
    for k
  proof (cases "k = nm")
    case False
    then have same: "phase_dict_by_name self1 k = phase_dict_by_name self k"
      by (simp add: dict split: option.splits)
    show ?thesis
    proof (cases "phase_dict_by_name self k")
      case None
      with inv_at [of k] have "\<forall>j < length ps. name env (ps ! j) \<noteq> Inr k"
        by simp
      with False nm show ?thesis
        by (auto simp: same None nth_append less_Suc_eq)
    next
      case (Some q)
      with inv_at [of k] obtain i where i: "lowest_first env ps k i" "q = indexed ps ! i"
        by auto
      from i(1) have "i < length ps"
        by (simp add: lowest_first_def)
      with i lowest_first_other_name [OF i(1), of p] False nm show ?thesis
        by (auto simp: same Some nth_indexed_snoc)
    qed
  next
    case True
    show ?thesis
    proof (cases "phase_dict_by_name self nm")
      case None
      with inv_at [of nm] have "\<forall>j < length ps. name env (ps ! j) \<noteq> Inr nm"
        by simp
      from lowest_first_new_name [OF this nm] show ?thesis
        by (auto simp: True dict None ph nth_indexed_snoc)
    next
      case (Some old)
      with inv_at [of nm] obtain i where i: "lowest_first env ps nm i" "old = indexed ps ! i"
        by auto
      from i(1) have il: "i < length ps"
        by (simp add: lowest_first_def)
      then have en: "energy old = energy (ps ! i)"
        by (simp add: i(2) nth_indexed)
      show ?thesis
      proof (cases "energy p < energy old")
        case less: True
        from lowest_first_replaced [OF i(1) nm] less en show ?thesis
          by (auto simp: True dict Some ph nth_indexed_snoc)
      next
        case notless: False
        from lowest_first_kept [OF i(1), of p] notless en il i(2) show ?thesis
          by (auto simp: True dict Some nth_indexed_snoc)
      qed
    qed
  qed
  show ?thesis
    using entry list' nm by (simp add: dict_holds_lowest_def)
qed

lemma add_phases_invariant:
  "add_phases env clear ps = Inr self \<Longrightarrow>
   dict_holds_lowest env ps (phase_dict_by_name self) \<and> phases self = indexed ps \<and>
   (\<forall>p \<in> set ps. \<exists>nm. name env p = Inr nm)"
proof (induction ps arbitrary: self rule: rev_induct)
  case Nil
  then show ?case
    by (auto simp: clear_def dict_holds_lowest_def)
next
  case (snoc p ps)
  from snoc.prems obtain self0 where
    before: "add_phases env clear ps = Inr self0" and step: "add_phase env self0 p = Inr self"
    by (auto simp: add_phases_snoc split: sum.splits)
  from snoc.IH [OF before] dict_holds_lowest_step [OF _ _ step, of ps] show ?case
    by auto
qed

text \<open>
  Claim C2. After any sequence of \<open>add_phase\<close> calls on an empty container that all
  return, \<open>phases\<close> holds all the added phases in order, and for every name \<open>nm\<close> of an
  added phase \<open>phase_dict[nm]\<close> holds a phase of that name of minimal energy among
  the added phases of that name: the one added first among those of minimal energy,
  since only a strictly lower energy replaces the entry.
\<close>

theorem phase_dict_holds_lowest:
  assumes "add_phases env clear ps = Inr self"
  shows "phases self = indexed ps \<and>
         (\<forall>p \<in> set ps. \<exists>nm i. name env p = Inr nm \<and> lowest_first env ps nm i \<and>
            phase_dict_by_name self nm = Some (indexed ps ! i))"
proof -
  from add_phases_invariant [OF assms]
  have inv: "dict_holds_lowest env ps (phase_dict_by_name self)" and ph: "phases self = indexed ps"
    and names: "\<forall>p \<in> set ps. \<exists>nm. name env p = Inr nm"
    by simp_all
  have "\<exists>nm i. name env p = Inr nm \<and> lowest_first env ps nm i \<and>
          phase_dict_by_name self nm = Some (indexed ps ! i)" if "p \<in> set ps" for p
  proof -
    from names that obtain nm where nm: "name env p = Inr nm" by blast
    from that obtain j where j: "j < length ps" "ps ! j = p"
      by (auto simp: in_set_conv_nth)
    from inv have "case phase_dict_by_name self nm of
                     None \<Rightarrow> (\<forall>j < length ps. name env (ps ! j) \<noteq> Inr nm)
                   | Some q \<Rightarrow> (\<exists>i. lowest_first env ps nm i \<and> q = indexed ps ! i)"
      by (simp add: dict_holds_lowest_def)
    with j nm show ?thesis
      by (cases "phase_dict_by_name self nm") auto
  qed
  with ph show ?thesis by blast
qed

text \<open>The container on the concrete phases.\<close>

lemma name_examples:
  "name sample_env phase_Fe2O3_a = Inr ''FeO''"
  "name sample_env phase_Fe2O3_b = Inr ''FeO''"
  "name sample_env phase_Fe_O0 = Inr ''FeO''"
  by (simp_all add: phase_Fe2O3_a_def phase_Fe2O3_b_def phase_Fe_O0_def sample_env_def)

lemma Phase_eq_examples:
  "Phase_eq (upd_index i phase_Fe2O3_a) (upd_index j phase_Fe2O3_b) = Inr False"
  by (simp add: Phase_eq_def phase_Fe2O3_a_def phase_Fe2O3_b_def upd_index_def)

lemma add_phase_example_O0:
  "\<exists>self. add_phase sample_env clear phase_Fe_O0 = Inr self \<and>
          map snd (phases_by_elt self ''O'') = [upd_index (Some 1) phase_Fe_O0] \<and>
          map snd (phases_by_elt self ''Fe'') = [upd_index (Some 1) phase_Fe_O0]"
  by (simp add: add_phase_def clear_def name_examples Let_def set_add_def Phase_hash_def
      dict_keys_def phase_Fe_O0_def upd_index_def)

lemma example_attrs:
  "comp_attr phase_Fe2O3_a = [(''Fe'', 2), (''O'', 3)]" "energy phase_Fe2O3_a = - 3"
  "comp_attr phase_Fe2O3_b = [(''Fe'', 2), (''O'', 3)]" "energy phase_Fe2O3_b = - 5"
  by (simp_all add: phase_Fe2O3_a_def phase_Fe2O3_b_def)

lemma example_distinct: "upd_index i phase_Fe2O3_a \<noteq> upd_index j phase_Fe2O3_b"
  by (simp add: phase_Fe2O3_a_def phase_Fe2O3_b_def upd_index_def)

lemma add_phases_example:
  "\<exists>self. add_phases sample_env clear [phase_Fe2O3_a, phase_Fe2O3_b] = Inr self"
  by (simp add: add_phase_def clear_def name_examples Let_def set_add_def Phase_hash_def
      dict_keys_def Phase_eq_examples example_attrs example_distinct)

theorem phase_dict_holds_lowest_witness:
  "\<exists>self. add_phases sample_env clear [phase_Fe2O3_a, phase_Fe2O3_b] = Inr self \<and>
          phases self = indexed [phase_Fe2O3_a, phase_Fe2O3_b] \<and>
          length (phases self) = 2 \<and>
          phase_dict_by_name self ''FeO'' = Some (upd_index (Some 2) phase_Fe2O3_b) \<and>
          energy (upd_index (Some 2) phase_Fe2O3_b) = - 5"
proof -
  let ?ps = "[phase_Fe2O3_a, phase_Fe2O3_b]"
  obtain self where run: "add_phases sample_env clear ?ps = Inr self"
    using add_phases_example by blast
  from phase_dict_holds_lowest [OF run]
  have ph: "phases self = indexed ?ps"
    and "\<exists>nm i. name sample_env phase_Fe2O3_b = Inr nm \<and> lowest_first sample_env ?ps nm i \<and>
           phase_dict_by_name self nm = Some (indexed ?ps ! i)"
    by simp_all
  then obtain i where low: "lowest_first sample_env ?ps ''FeO'' i"
    and held: "phase_dict_by_name self ''FeO'' = Some (indexed ?ps ! i)"
    by (auto simp: name_examples)
  from low have "i < 2"
    and all: "\<forall>j < length ?ps. name sample_env (?ps ! j) = Inr ''FeO'' \<longrightarrow>
                energy (?ps ! i) \<le> energy (?ps ! j)"
    by (simp_all add: lowest_first_def)
  from all have "1 < length ?ps \<longrightarrow> name sample_env (?ps ! 1) = Inr ''FeO'' \<longrightarrow>
                   energy (?ps ! i) \<le> energy (?ps ! 1)"
    by (rule spec)
  then have "energy (?ps ! i) \<le> - 5"
    by (simp add: name_examples example_attrs)
  with \<open>i < 2\<close>
  have "i = 1"
    by (cases "i = 0") (auto simp: example_attrs)
  with held have "phase_dict_by_name self ''FeO'' = Some (upd_index (Some 2) phase_Fe2O3_b)"
    by (simp add: nth_indexed numeral_2_eq_2)
  with run ph show ?thesis
    by (simp add: example_attrs)
qed

section \<open>PhaseData: the indexes by element and by dimension\<close>

text \<open>Membership in a set of phases.\<close>

lemma probe_append_found: "probe s h x = Inr True \<Longrightarrow> probe (s @ t) h x = Inr True"
  by (induction s) (auto split: sum.splits if_splits)

lemma probe_append_absent: "probe s h x = Inr False \<Longrightarrow> probe (s @ t) h x = probe t h x"
  by (induction s) (auto split: sum.splits if_splits)

lemma set_add_contains: "set_add env s x = Inr s' \<Longrightarrow> set_contains env s' x = Inr True"
  by (auto simp: set_add_def set_contains_def probe_append_absent split: sum.splits if_splits)

lemma set_add_keeps:
  "set_add env s x = Inr s' \<Longrightarrow> set_contains env s q = Inr True \<Longrightarrow>
   set_contains env s' q = Inr True"
  by (auto simp: set_add_def set_contains_def probe_append_found split: sum.splits if_splits)

lemma set_add_members:
  "set_add env s x = Inr s' \<Longrightarrow> snd ` set s' \<subseteq> insert x (snd ` set s)"
  by (auto simp: set_add_def split: sum.splits if_splits)

lemma elt_loop_buckets:
  "elt_loop env elts x f = Inr f' \<Longrightarrow>
   (\<forall>E. snd ` set (f' E) \<subseteq> snd ` set (f E) \<union> (if E \<in> set elts then {x} else {})) \<and>
   (\<forall>E q. set_contains env (f E) q = Inr True \<longrightarrow> set_contains env (f' E) q = Inr True) \<and>
   (\<forall>E \<in> set elts. set_contains env (f' E) x = Inr True)"
proof (induction elts arbitrary: f)
  case Nil
  then show ?case by simp
next
  case (Cons elt elts)
  from Cons.prems obtain s where
    add: "set_add env (f elt) x = Inr s" and rest: "elt_loop env elts x (f(elt := s)) = Inr f'"
    by (auto split: sum.splits)
  from Cons.IH [OF rest]
  have ih1: "snd ` set (f' E) \<subseteq> snd ` set ((f(elt := s)) E) \<union> (if E \<in> set elts then {x} else {})"
    and ih2: "set_contains env ((f(elt := s)) E) q = Inr True \<Longrightarrow>
              set_contains env (f' E) q = Inr True"
    and ih3: "E \<in> set elts \<Longrightarrow> set_contains env (f' E) x = Inr True" for E q
    by blast+
  have members: "snd ` set (f' E) \<subseteq> snd ` set (f E) \<union> (if E \<in> set (elt # elts) then {x} else {})"
    for E
  proof (cases "E = elt")
    case True
    have "snd ` set (f' elt) \<subseteq> snd ` set s \<union> {x}"
      using ih1 [of elt] by (simp split: if_splits) blast
    also have "\<dots> \<subseteq> snd ` set (f elt) \<union> {x}"
      using set_add_members [OF add] by blast
    finally show ?thesis
      by (simp add: True)
  next
    case False
    with ih1 [of E] show ?thesis
      by (simp split: if_splits)
  qed
  have keeps: "set_contains env (f' E) q = Inr True" if "set_contains env (f E) q = Inr True"
    for E q
  proof (cases "E = elt")
    case True
    with that set_add_keeps [OF add] ih2 [of elt q] show ?thesis by simp
  next
    case False
    with that ih2 [of E q] show ?thesis by simp
  qed
  have "set_contains env (f' elt) x = Inr True"
    using ih2 [of elt x] set_add_contains [OF add] by simp
  with ih3 have added: "\<forall>E \<in> set (elt # elts). set_contains env (f' E) x = Inr True"
    by auto
  from members keeps added show ?case by blast
qed

text \<open>What one call of \<open>add_phase\<close> does to the two indexes.\<close>

lemma add_phase_indexes:
  assumes "add_phase env self p = Inr self1"
  shows "\<exists>s. elt_loop env (dict_keys (comp_attr p))
                (upd_index (Some (Suc (length (phases self)))) p) (phases_by_elt self)
              = Inr (phases_by_elt self1) \<and>
             set_add env (phases_by_dim self (length (comp_attr p)))
                (upd_index (Some (Suc (length (phases self)))) p) = Inr s \<and>
             phases_by_dim self1 = (phases_by_dim self)(length (comp_attr p) := s)"
  using assms by (auto simp: add_phase_def Let_def split: sum.splits)

lemma indexes_hold_step:
  assumes inv: "indexes_hold env ps self"
    and ph: "phases self = indexed ps"
    and add: "add_phase env self p = Inr self1"
  shows "indexes_hold env (ps @ [p]) self1"
proof -
  define p' where "p' = upd_index (Some (Suc (length ps))) p"
  define dim where "dim = length (comp_attr p)"
  have stored: "set (indexed (ps @ [p])) = insert p' (set (indexed ps))"
    by (simp add: indexed_snoc p'_def)
  have keys': "comp_attr p' = comp_attr p"
    by (simp add: p'_def)
  obtain s where loop: "elt_loop env (dict_keys (comp_attr p)) p' (phases_by_elt self)
                          = Inr (phases_by_elt self1)"
    and dadd: "set_add env (phases_by_dim self dim) p' = Inr s"
    and dims: "phases_by_dim self1 = (phases_by_dim self)(dim := s)"
    using add_phase_indexes [OF add] by (auto simp: ph p'_def dim_def)
  from inv have
    e1: "snd ` set (phases_by_elt self E)
           \<subseteq> {q \<in> set (indexed ps). E \<in> set (dict_keys (comp_attr q))}"
    and e2: "q \<in> set (indexed ps) \<Longrightarrow> E \<in> set (dict_keys (comp_attr q)) \<Longrightarrow>
             set_contains env (phases_by_elt self E) q = Inr True"
    and d1: "snd ` set (phases_by_dim self d) \<subseteq> {q \<in> set (indexed ps). length (comp_attr q) = d}"
    and d2: "q \<in> set (indexed ps) \<Longrightarrow> length (comp_attr q) = d \<Longrightarrow>
             set_contains env (phases_by_dim self d) q = Inr True" for E q d
    by (simp_all add: indexes_hold_def)
  from elt_loop_buckets [OF loop] have
    l1: "snd ` set (phases_by_elt self1 E)
           \<subseteq> snd ` set (phases_by_elt self E)
             \<union> (if E \<in> set (dict_keys (comp_attr p)) then {p'} else {})"
    and l2: "set_contains env (phases_by_elt self E) q = Inr True \<Longrightarrow>
             set_contains env (phases_by_elt self1 E) q = Inr True"
    and l3: "E \<in> set (dict_keys (comp_attr p)) \<Longrightarrow>
             set_contains env (phases_by_elt self1 E) p' = Inr True" for E q
    by blast+
  have a: "snd ` set (phases_by_elt self1 E)
             \<subseteq> {q \<in> set (indexed (ps @ [p])). E \<in> set (dict_keys (comp_attr q))}" for E
  proof
    fix q assume "q \<in> snd ` set (phases_by_elt self1 E)"
    with l1 [of E] have "q \<in> snd ` set (phases_by_elt self E) \<or>
                          (q = p' \<and> E \<in> set (dict_keys (comp_attr p)))"
      by (auto split: if_splits)
    with e1 [of E] show "q \<in> {q \<in> set (indexed (ps @ [p])). E \<in> set (dict_keys (comp_attr q))}"
      by (auto simp: stored keys')
  qed
  have b: "set_contains env (phases_by_elt self1 E) q = Inr True"
    if "q \<in> set (indexed (ps @ [p]))" and "E \<in> set (dict_keys (comp_attr q))" for E q
  proof (cases "q = p'")
    case True
    with that l3 [of E] show ?thesis by (simp add: keys')
  next
    case False
    with that have "q \<in> set (indexed ps)" by (simp add: stored)
    from l2 [OF e2 [OF this that(2)]] show ?thesis .
  qed
  have c: "snd ` set (phases_by_dim self1 d)
             \<subseteq> {q \<in> set (indexed (ps @ [p])). length (comp_attr q) = d}" for d
  proof
    fix q assume q: "q \<in> snd ` set (phases_by_dim self1 d)"
    show "q \<in> {q \<in> set (indexed (ps @ [p])). length (comp_attr q) = d}"
    proof (cases "d = dim")
      case True
      with q have "q \<in> snd ` set s" by (simp add: dims)
      with set_add_members [OF dadd] have "q = p' \<or> q \<in> snd ` set (phases_by_dim self dim)"
        by blast
      with d1 [of dim] have "q = p' \<or> (q \<in> set (indexed ps) \<and> length (comp_attr q) = dim)"
        by blast
      then show ?thesis
        by (auto simp: True stored keys' dim_def)
    next
      case False
      with q have "q \<in> snd ` set (phases_by_dim self d)" by (simp add: dims)
      with d1 [of d] show ?thesis
        by (auto simp: stored)
    qed
  qed
  have d: "set_contains env (phases_by_dim self1 d) q = Inr True"
    if "q \<in> set (indexed (ps @ [p]))" and "length (comp_attr q) = d" for d q
  proof (cases "q = p'")
    case True
    with that have "d = dim" by (simp add: keys' dim_def)
    with True set_add_contains [OF dadd] show ?thesis by (simp add: dims)
  next
    case False
    with that have old: "q \<in> set (indexed ps)" by (simp add: stored)
    show ?thesis
    proof (cases "d = dim")
      case True
      with d2 [OF old that(2)] have "set_contains env (phases_by_dim self dim) q = Inr True"
        by simp
      from set_add_keeps [OF dadd this] True show ?thesis by (simp add: dims)
    next
      case False
      with d2 [OF old that(2)] show ?thesis by (simp add: dims)
    qed
  qed
  show ?thesis
    unfolding indexes_hold_def
  proof (intro conjI allI ballI impI)
    fix E show "snd ` set (phases_by_elt self1 E)
                  \<subseteq> {q \<in> set (indexed (ps @ [p])). E \<in> set (dict_keys (comp_attr q))}"
      by (rule a)
  next
    fix E q assume "q \<in> set (indexed (ps @ [p]))" "E \<in> set (dict_keys (comp_attr q))"
    then show "set_contains env (phases_by_elt self1 E) q = Inr True"
      by (rule b)
  next
    fix n show "snd ` set (phases_by_dim self1 n)
                  \<subseteq> {q \<in> set (indexed (ps @ [p])). length (comp_attr q) = n}"
      by (rule c)
  next
    fix n q assume "q \<in> set (indexed (ps @ [p]))" "length (comp_attr q) = n"
    then show "set_contains env (phases_by_dim self1 n) q = Inr True"
      by (rule d)
  qed
qed

lemma add_phases_indexes:
  "add_phases env clear ps = Inr self \<Longrightarrow> indexes_hold env ps self"
proof (induction ps arbitrary: self rule: rev_induct)
  case Nil
  then have "self = clear" by simp
  then show ?case
    by (simp add: clear_def indexes_hold_def)
next
  case (snoc p ps)
  from snoc.prems obtain self0 where
    before: "add_phases env clear ps = Inr self0" and step: "add_phase env self0 p = Inr self"
    by (auto simp: add_phases_snoc split: sum.splits)
  from add_phases_invariant [OF before] have "phases self0 = indexed ps"
    by simp
  from indexes_hold_step [OF snoc.IH [OF before] this step] show ?case .
qed

text \<open>
  Counterexample to C4 as stated. After \<open>add_phase(Phase({'Fe': 1, 'O': 0}, -1))\<close> on
  an empty container \<open>phases_by_elt['O']\<close> holds the phase, whose composition maps \<open>O\<close>
  to the amount 0: line 72 runs over the keys of the composition.
\<close>

theorem phases_by_elt_counterexample:
  "(case add_phase sample_env clear phase_Fe_O0 of
      Inl err \<Rightarrow> False
    | Inr self \<Rightarrow> map snd (phases_by_elt self ''O'') = [upd_index (Some 1) phase_Fe_O0]) \<and>
   comp_attr (upd_index (Some 1) phase_Fe_O0) = [(''Fe'', 1), (''O'', 0)] \<and>
   dget (comp_attr (upd_index (Some 1) phase_Fe_O0)) ''O'' = 0"
proof -
  obtain self where "add_phase sample_env clear phase_Fe_O0 = Inr self"
    "map snd (phases_by_elt self ''O'') = [upd_index (Some 1) phase_Fe_O0]"
    using add_phase_example_O0 by (elim exE conjE)
  then show ?thesis
    by (simp add: phase_Fe_O0_def upd_index_def dget_map_of)
qed

text \<open>
  Claim C4, amended. After any sequence of \<open>add_phase\<close> calls on an empty container
  that all return, and for every element symbol \<open>E\<close>: every member of
  \<open>phases_by_elt[E]\<close> is an added phase with the key \<open>E\<close> in its composition,
  whatever the amount, and for every added phase \<open>q\<close> with the key \<open>E\<close> the test
  \<open>q in phases_by_elt[E]\<close> is \<open>True\<close> (the set holds \<open>q\<close> or a phase of the same hash
  that is \<open>==\<close> to it). Likewise \<open>phases_by_dim[d]\<close> and the added phases whose
  composition has \<open>d\<close> keys.
\<close>

theorem indexes_after_add_phases:
  assumes "add_phases env clear ps = Inr self"
  shows "(\<forall>q \<in> snd ` set (phases_by_elt self E).
            q \<in> set (indexed ps) \<and> E \<in> set (dict_keys (comp_attr q))) \<and>
         (\<forall>q \<in> set (indexed ps). E \<in> set (dict_keys (comp_attr q)) \<longrightarrow>
            set_contains env (phases_by_elt self E) q = Inr True) \<and>
         (\<forall>q \<in> snd ` set (phases_by_dim self d).
            q \<in> set (indexed ps) \<and> length (comp_attr q) = d) \<and>
         (\<forall>q \<in> set (indexed ps). length (comp_attr q) = d \<longrightarrow>
            set_contains env (phases_by_dim self d) q = Inr True)"
proof -
  from add_phases_indexes [OF assms] have
    e1: "snd ` set (phases_by_elt self E)
           \<subseteq> {q \<in> set (indexed ps). E \<in> set (dict_keys (comp_attr q))}"
    and e2: "\<forall>q \<in> set (indexed ps). E \<in> set (dict_keys (comp_attr q)) \<longrightarrow>
               set_contains env (phases_by_elt self E) q = Inr True"
    and d1: "snd ` set (phases_by_dim self d) \<subseteq> {q \<in> set (indexed ps). length (comp_attr q) = d}"
    and d2: "\<forall>q \<in> set (indexed ps). length (comp_attr q) = d \<longrightarrow>
               set_contains env (phases_by_dim self d) q = Inr True"
    by (simp_all add: indexes_hold_def)
  from e1 have e1': "\<forall>q \<in> snd ` set (phases_by_elt self E).
                      q \<in> set (indexed ps) \<and> E \<in> set (dict_keys (comp_attr q))"
    by (rule_tac ballI) (drule_tac c = q in subsetD, assumption, simp)
  from d1 have d1': "\<forall>q \<in> snd ` set (phases_by_dim self d).
                      q \<in> set (indexed ps) \<and> length (comp_attr q) = d"
    by (rule_tac ballI) (drule_tac c = q in subsetD, assumption, simp)
  from e1' e2 d1' d2 show ?thesis
    by (intro conjI)
qed

theorem indexes_after_add_phases_witness:
  "\<exists>self. add_phases sample_env clear [phase_Fe2O3_a, phase_Fe2O3_b] = Inr self \<and>
          set_contains sample_env (phases_by_elt self ''Fe'') (upd_index (Some 1) phase_Fe2O3_a)
            = Inr True \<and>
          set_contains sample_env (phases_by_elt self ''O'') (upd_index (Some 2) phase_Fe2O3_b)
            = Inr True \<and>
          set_contains sample_env (phases_by_dim self 2) (upd_index (Some 2) phase_Fe2O3_b)
            = Inr True \<and>
          phases_by_elt self ''Li'' = [] \<and>
          phases_by_dim self 3 = []"
proof -
  let ?ps = "[phase_Fe2O3_a, phase_Fe2O3_b]"
  obtain self where run: "add_phases sample_env clear ?ps = Inr self"
    using add_phases_example by blast
  have stored: "set (indexed ?ps)
                  = {upd_index (Some 1) phase_Fe2O3_a, upd_index (Some 2) phase_Fe2O3_b}"
    by (simp add: indexed_def numeral_2_eq_2)
  note facts = indexes_after_add_phases [OF run]
  have fe: "set_contains sample_env (phases_by_elt self ''Fe'') (upd_index (Some 1) phase_Fe2O3_a)
              = Inr True"
    using facts [of "''Fe''" 2] by (simp add: stored example_attrs dict_keys_def)
  have o: "set_contains sample_env (phases_by_elt self ''O'') (upd_index (Some 2) phase_Fe2O3_b)
              = Inr True"
    using facts [of "''O''" 2] by (simp add: stored example_attrs dict_keys_def)
  have d2: "set_contains sample_env (phases_by_dim self 2) (upd_index (Some 2) phase_Fe2O3_b)
              = Inr True"
    using facts [of "''O''" 2] by (simp add: stored example_attrs dict_keys_def)
  have li: "phases_by_elt self ''Li'' = []"
    using facts [of "''Li''" 2]
    by (cases "phases_by_elt self ''Li''") (auto simp: stored example_attrs dict_keys_def)
  have d3: "phases_by_dim self 3 = []"
    using facts [of "''Li''" 3]
    by (cases "phases_by_dim self 3") (auto simp: stored example_attrs)
  from run fe o d2 li d3 show ?thesis by blast
qed

section \<open>PhaseData: calls that return\<close>

text \<open>
  \<open>add_phase\<close> returns when the name of the phase can be formed and the unit composition
  of the phase, and of every phase already in the indexes, has the keys of its
  composition; the indexes then hold such phases only. So every sequence of calls with
  constructed phases whose names can be formed returns.
\<close>

lemma upd_index_covers [simp]: "unit_comp_covers (upd_index i p) = unit_comp_covers p"
  by (simp add: unit_comp_covers_def)

lemma probe_returns:
  assumes "\<forall>y \<in> snd ` set s. unit_comp_covers y" and "unit_comp_covers x"
  shows "\<exists>b. probe s h x = Inr b"
  using assms(1)
proof (induction s)
  case Nil
  have "probe [] h x = Inr False" by simp
  then show ?case by blast
next
  case (Cons hy s)
  obtain h' y where hy: "hy = (h', y)" by (cases hy)
  from Cons.prems have y: "unit_comp_covers y" and rest: "\<forall>y \<in> snd ` set s. unit_comp_covers y"
    by (simp_all add: hy)
  from Phase_eq_returns [OF y assms(2)] obtain b where "Phase_eq y x = Inr b" by blast
  moreover from Cons.IH [OF rest] obtain b' where "probe s h x = Inr b'" by blast
  ultimately have "probe (hy # s) h x = Inr True \<or> probe (hy # s) h x = Inr b'"
    by (simp add: hy)
  then show ?case by blast
qed

lemma set_add_returns:
  assumes "\<forall>y \<in> snd ` set s. unit_comp_covers y" and "unit_comp_covers x"
    and "name env x = Inr nm"
  shows "\<exists>s'. set_add env s x = Inr s' \<and> (\<forall>y \<in> snd ` set s'. unit_comp_covers y)"
proof -
  from probe_returns [OF assms(1,2)] obtain b where
    "probe s (hash_tuple env (nm, energy x)) x = Inr b" by blast
  then have "set_add env s x = Inr (if b then s else s @ [(hash_tuple env (nm, energy x), x)])"
    by (simp add: set_add_def Phase_hash_def assms(3))
  moreover have "\<forall>y \<in> snd ` set (if b then s else s @ [(hash_tuple env (nm, energy x), x)]).
                   unit_comp_covers y"
    using assms(1,2) by simp
  ultimately show ?thesis by blast
qed

lemma elt_loop_returns:
  assumes "\<forall>E. \<forall>y \<in> snd ` set (f E). unit_comp_covers y"
    and "unit_comp_covers x" and "name env x = Inr nm"
  shows "\<exists>f'. elt_loop env elts x f = Inr f' \<and> (\<forall>E. \<forall>y \<in> snd ` set (f' E). unit_comp_covers y)"
  using assms(1)
proof (induction elts arbitrary: f)
  case Nil
  then show ?case by simp
next
  case (Cons elt elts)
  from Cons.prems have here: "\<forall>y \<in> snd ` set (f elt). unit_comp_covers y"
    by blast
  from set_add_returns [OF here assms(2,3)] obtain s where
    s: "set_add env (f elt) x = Inr s" "\<forall>y \<in> snd ` set s. unit_comp_covers y"
    by blast
  with Cons.prems have "\<forall>E. \<forall>y \<in> snd ` set ((f(elt := s)) E). unit_comp_covers y"
    by simp
  from Cons.IH [OF this] obtain f' where
    "elt_loop env elts x (f(elt := s)) = Inr f'" "\<forall>E. \<forall>y \<in> snd ` set (f' E). unit_comp_covers y"
    by blast
  with s(1) have "elt_loop env (elt # elts) x f = Inr f' \<and>
                  (\<forall>E. \<forall>y \<in> snd ` set (f' E). unit_comp_covers y)"
    by simp
  then show ?case by blast
qed

lemma add_phase_returns:
  assumes cov: "covered self" and x: "unit_comp_covers p" and nm: "name env p = Inr nm"
  shows "\<exists>self1. add_phase env self p = Inr self1 \<and> covered self1"
proof -
  define p' where "p' = upd_index (Some (length (phases self) + 1)) p"
  define dim where "dim = length (comp_attr p')"
  have x': "unit_comp_covers p'" and nm': "name env p' = Inr nm"
    using x nm by (simp_all add: p'_def)
  from cov have e: "\<forall>E. \<forall>y \<in> snd ` set (phases_by_elt self E). unit_comp_covers y"
    and dall: "\<forall>d. \<forall>y \<in> snd ` set (phases_by_dim self d). unit_comp_covers y"
    by (simp_all add: covered_def)
  from dall have d: "\<forall>y \<in> snd ` set (phases_by_dim self dim). unit_comp_covers y"
    by blast
  from elt_loop_returns [OF e x' nm', of "dict_keys (comp_attr p')"] obtain f' where
    f': "elt_loop env (dict_keys (comp_attr p')) p' (phases_by_elt self) = Inr f'"
    "\<forall>E. \<forall>y \<in> snd ` set (f' E). unit_comp_covers y"
    by blast
  from set_add_returns [OF d x' nm'] obtain s where
    s: "set_add env (phases_by_dim self dim) p' = Inr s" "\<forall>y \<in> snd ` set s. unit_comp_covers y"
    by blast
  have d': "\<forall>d. \<forall>y \<in> snd ` set (((phases_by_dim self)(dim := s)) d). unit_comp_covers y"
    using s(2) dall by simp
  define pdict where "pdict =
    (case phase_dict_by_name self nm of
       None \<Rightarrow> (phase_dict_by_name self)(nm \<mapsto> p')
     | Some old \<Rightarrow>
         if energy p' < energy old then (phase_dict_by_name self)(nm \<mapsto> p')
         else phase_dict_by_name self)"
  define self1 where "self1 =
    self\<lparr>phase_dict_by_name := pdict, phases := phases self @ [p'],
         phases_by_elt := f', phases_by_dim := (phases_by_dim self)(dim := s),
         space := space self \<union> set (dict_keys (comp_attr p'))\<rparr>"
  have "add_phase env self p = Inr self1"
    unfolding add_phase_def Let_def p'_def [symmetric] nm' sum.case
    by (simp add: f' s dim_def [symmetric] self1_def pdict_def)
  moreover have "covered self1"
    using f'(2) d' by (simp add: covered_def self1_def)
  ultimately show ?thesis by blast
qed

lemma add_phases_returns:
  assumes "\<forall>p \<in> set ps. unit_comp_covers p \<and> (\<exists>nm. name env p = Inr nm)"
  shows "\<exists>self. add_phases env clear ps = Inr self"
proof -
  have "\<exists>self1. add_phases env self ps = Inr self1" if "covered self" for self
    using assms that
  proof (induction ps arbitrary: self)
    case Nil
    then show ?case by simp
  next
    case (Cons p ps)
    from Cons.prems obtain nm where "unit_comp_covers p" "name env p = Inr nm"
      by auto
    from add_phase_returns [OF Cons.prems(2) this] obtain self1 where
      step: "add_phase env self p = Inr self1" "covered self1" by blast
    from Cons.prems(1) have "\<forall>p \<in> set ps. unit_comp_covers p \<and> (\<exists>nm. name env p = Inr nm)"
      by simp
    from Cons.IH [OF this step(2)] step(1) show ?case
      by simp
  qed
  moreover have "covered clear"
    by (simp add: covered_def clear_def)
  ultimately show ?thesis by blast
qed

end
